theory Spec2Isabelle
  imports Complex_Main "HOL-Library.AList"
begin

section \<open>Python values and the coercions the handler applies to them\<close>

text \<open>
  The handler \<^verbatim>\<open>predict_risks\<close> of \<^verbatim>\<open>main.py\<close> works on Python floats, calls the
  builtins \<^verbatim>\<open>hasattr\<close>, \<^verbatim>\<open>int\<close>, \<^verbatim>\<open>float\<close> and \<^verbatim>\<open>str\<close> on objects it knows nothing
  about, compares floats with \<^verbatim>\<open>min\<close> and \<^verbatim>\<open>max\<close>, builds lists with \<^verbatim>\<open>*\<close>, and
  searches an error message with a regular expression. This section gives these builtins
  a meaning, with every exception they can raise.

  A Python float is an IEEE binary64 value. A finite one is represented by the real number
  it denotes (the sign of zero is not represented: the handler never observes it), next to
  the two infinities and NaN.
\<close>

datatype pyfloat = Fin real | PosInf | NegInf | NaN

text \<open>The comparison \<^verbatim>\<open>a < b\<close> of two floats: false as soon as one side is NaN.\<close>

fun float_lt :: "pyfloat \<Rightarrow> pyfloat \<Rightarrow> bool" where
  "float_lt (Fin a) (Fin b) = (a < b)"
| "float_lt (Fin a) PosInf = True"
| "float_lt NegInf (Fin b) = True"
| "float_lt NegInf PosInf = True"
| "float_lt _ _ = False"

text \<open>
  The builtins \<^verbatim>\<open>min(a, b)\<close> and \<^verbatim>\<open>max(a, b)\<close> keep the first argument unless the
  second is strictly smaller (\<^verbatim>\<open>b < a\<close>), respectively strictly greater (\<^verbatim>\<open>b > a\<close>).
\<close>

definition py_min :: "pyfloat \<Rightarrow> pyfloat \<Rightarrow> pyfloat" where
  "py_min a b = (if float_lt b a then b else a)"

definition py_max :: "pyfloat \<Rightarrow> pyfloat \<Rightarrow> pyfloat" where
  "py_max a b = (if float_lt a b then b else a)"

definition float_neg :: "pyfloat \<Rightarrow> pyfloat" where
  "float_neg x = (case x of Fin r \<Rightarrow> Fin (- r) | PosInf \<Rightarrow> NegInf | NegInf \<Rightarrow> PosInf | NaN \<Rightarrow> NaN)"

subsection \<open>Rounding a rational to the nearest binary64\<close>

text \<open>
  \<^verbatim>\<open>int.bit_length\<close>: the number of binary digits of a positive integer (large numbers
  are kept in \<open>int\<close> throughout, which computes in binary).
\<close>

function bit_length :: "int \<Rightarrow> nat" where
  "bit_length n = (if n \<le> 0 then 0 else Suc (bit_length (n div 2)))"
  by pat_completeness auto
termination
  by (relation "measure nat") auto

declare bit_length.simps [simp del]

text \<open>For \<open>a, b > 0\<close>: the exponent \<open>e\<close> with \<open>2 ^ e \<le> a / b < 2 ^ (e + 1)\<close>.\<close>

definition ilog2_ratio :: "int \<Rightarrow> int \<Rightarrow> int" where
  "ilog2_ratio a b =
     (let e = int (bit_length a) - int (bit_length b)
      in if a * 2 ^ nat (- e) < b * 2 ^ nat e then e - 1 else e)"

text \<open>
  The quotient \<open>n / d\<close> (\<open>n \<ge> 0\<close>, \<open>d > 0\<close>) rounded to the nearest integer, ties to the
  even one.
\<close>

definition round_half_even :: "int \<Rightarrow> int \<Rightarrow> int" where
  "round_half_even n d =
     (let q = n div d; r = n mod d
      in if d < 2 * r \<or> (2 * r = d \<and> odd q) then q + 1 else q)"

text \<open>
  The binary64 nearest to \<open>num / den\<close> (\<open>den > 0\<close>): 53 significant bits, the unit in the
  last place never below \<open>2 ^ -1074\<close> (subnormal numbers, underflow to zero), and an
  infinity once the rounded value reaches \<open>2 ^ 1024\<close>.
\<close>

definition nearest_double :: "int \<Rightarrow> int \<Rightarrow> pyfloat" where
  "nearest_double num den =
     (if num = 0 then Fin 0
      else
        let a = \<bar>num\<bar>;
            e = ilog2_ratio a den;
            q = max e (- 1022) - 52;
            m = round_half_even (a * 2 ^ nat (- q)) (den * 2 ^ nat q);
            r = real_of_int (m * 2 ^ nat q) / real_of_int (2 ^ nat (- q))
        in if 2 ^ 1024 \<le> r then (if 0 < num then PosInf else NegInf)
           else Fin (if 0 < num then r else - r))"

subsection \<open>The platform\<close>

text \<open>
  What the handler does depends on four things that the source does not fix; they are
  parameters of the model.
  \<^item> The Unicode database of the interpreter, for the code points from 128 on: the value
    of a decimal digit (category Nd), and which code points are white space.
  \<^item> The limit on the number of digits of \<^verbatim>\<open>int(str)\<close>
    (\<^verbatim>\<open>sys.get_int_max_str_digits()\<close>: 4300 by default since Python 3.11; 0 when there is
    no limit, as in older interpreters).
  \<^item> \<^verbatim>\<open>sys.maxsize\<close>, the largest value of an index.
  \<^item> The longest list the process can allocate.
\<close>

record platform =
  unicode_decimal :: "nat \<Rightarrow> nat option"
  unicode_space :: "nat \<Rightarrow> bool"
  max_str_digits :: nat
  maxsize :: int
  max_list :: int

subsection \<open>Strings\<close>

text \<open>
  A Python string is a list of Unicode code points. \<open>ustr\<close> turns a literal of this
  theory, whose characters are below 256, into one.
\<close>

type_synonym ustring = "nat list"

definition ustr :: "string \<Rightarrow> ustring" where
  "ustr s = map of_char s"

text \<open>
  Below 128 the decimal digits are \<^verbatim>\<open>0\<close> to \<^verbatim>\<open>9\<close>, and the white space that
  \<^verbatim>\<open>int\<close> and \<^verbatim>\<open>float\<close> strip is tab, line feed, vertical tab, form feed, carriage
  return and space.
\<close>

definition is_ascii_digit :: "nat \<Rightarrow> bool" where
  "is_ascii_digit c = (48 \<le> c \<and> c \<le> 57)"

definition is_ascii_space :: "nat \<Rightarrow> bool" where
  "is_ascii_space c = (c \<in> {9, 10, 11, 12, 13, 32})"

text \<open>The class \<^verbatim>\<open>\d\<close> of a regular expression on strings: every decimal digit.\<close>

definition is_decimal :: "platform \<Rightarrow> nat \<Rightarrow> bool" where
  "is_decimal P c = (if c < 128 then is_ascii_digit c else unicode_decimal P c \<noteq> None)"

text \<open>
  Before they parse a string, \<^verbatim>\<open>int\<close> and \<^verbatim>\<open>float\<close> replace every white space from 128
  on by a space and every decimal digit from 128 on by the ASCII digit of its value; any
  other code point from 128 on makes the conversion fail (\<open>None\<close>).
\<close>

fun to_ascii :: "platform \<Rightarrow> ustring \<Rightarrow> ustring option" where
  "to_ascii P [] = Some []"
| "to_ascii P (c # cs) =
     (if c < 128 then map_option ((#) c) (to_ascii P cs)
      else if unicode_space P c then map_option ((#) 32) (to_ascii P cs)
      else
        (case unicode_decimal P c of
           None \<Rightarrow> None
         | Some d \<Rightarrow> map_option ((#) (48 + d)) (to_ascii P cs)))"

definition to_lower :: "nat \<Rightarrow> nat" where
  "to_lower c = (if 65 \<le> c \<and> c \<le> 90 then c + 32 else c)"

text \<open>The number a string of ASCII digits denotes.\<close>

definition int_of_digits :: "ustring \<Rightarrow> int" where
  "int_of_digits ds = foldl (\<lambda>n c. 10 * n + (int c - 48)) 0 ds"

definition strip_ws :: "ustring \<Rightarrow> ustring" where
  "strip_ws s = rev (dropWhile is_ascii_space (rev (dropWhile is_ascii_space s)))"

text \<open>An optional sign: whether it is a minus, and the rest.\<close>

definition split_sign :: "ustring \<Rightarrow> bool \<times> ustring" where
  "split_sign s =
     (case s of
        [] \<Rightarrow> (False, [])
      | c # cs \<Rightarrow>
          if c = 45 then (True, cs)
          else if c = 43 then (False, cs)
          else (False, s))"

text \<open>
  Underscores (code point 95) in a numeric literal: one is allowed only after a digit and
  before a digit. The result is the string without them, or \<open>None\<close> when one is misplaced.
  The first argument is the previous character (0 at the start).
\<close>

fun remove_underscores :: "nat \<Rightarrow> ustring \<Rightarrow> ustring option" where
  "remove_underscores prev [] = (if prev = 95 then None else Some [])"
| "remove_underscores prev (c # cs) =
     (if c = 95 then
        (if is_ascii_digit prev then remove_underscores c cs else None)
      else if prev = 95 \<and> \<not> is_ascii_digit c then None
      else map_option ((#) c) (remove_underscores c cs))"

text \<open>
  \<^verbatim>\<open>int(s)\<close> in base 10: white space, an optional sign, digits with single underscores
  between them, white space. \<open>None\<close> stands for the \<^verbatim>\<open>ValueError\<close>, which is also
  raised when there is a limit on the digits and a string of more than 640 digits has more
  digits than the limit.
\<close>

definition int_of_string :: "platform \<Rightarrow> ustring \<Rightarrow> int option" where
  "int_of_string P s =
     (case to_ascii P s of
        None \<Rightarrow> None
      | Some a \<Rightarrow>
          let (neg, t) = split_sign (dropWhile is_ascii_space a);
              body = rev (dropWhile is_ascii_space (rev t))
          in case remove_underscores 0 body of
               None \<Rightarrow> None
             | Some ds \<Rightarrow>
                 if ds = [] \<or> \<not> list_all is_ascii_digit ds then None
                 else if 0 < max_str_digits P \<and> 640 < length ds \<and> max_str_digits P < length ds
                 then None
                 else Some (if neg then - int_of_digits ds else int_of_digits ds))"

text \<open>
  An unsigned decimal literal \<^verbatim>\<open>digits [. digits] [e [sign] digits]\<close> with at least one
  digit before the exponent: its digits as a number \<open>m\<close> and the power of ten \<open>e\<close>, the
  value being \<open>m * 10 ^ e\<close>.
\<close>

definition parse_decimal :: "ustring \<Rightarrow> (int \<times> int) option" where
  "parse_decimal s =
     (let ip = takeWhile is_ascii_digit s;
          r1 = dropWhile is_ascii_digit s;
          (fp, r2) =
            (case r1 of
               [] \<Rightarrow> ([], [])
             | c # cs \<Rightarrow>
                 if c = 46 then (takeWhile is_ascii_digit cs, dropWhile is_ascii_digit cs)
                 else ([], r1))
      in if ip = [] \<and> fp = [] then None
         else
           (case r2 of
              [] \<Rightarrow> Some (int_of_digits (ip @ fp), - int (length fp))
            | c # cs \<Rightarrow>
                if c = 101 \<or> c = 69 then
                  (let (neg, ds) = split_sign cs
                   in if ds \<noteq> [] \<and> list_all is_ascii_digit ds
                      then Some (int_of_digits (ip @ fp),
                                 (if neg then - int_of_digits ds else int_of_digits ds)
                                   - int (length fp))
                      else None)
                else None))"

text \<open>
  \<^verbatim>\<open>float(s)\<close>: white space stripped, underscores checked and removed, an optional
  sign, then \<^verbatim>\<open>inf\<close>, \<^verbatim>\<open>infinity\<close> or \<^verbatim>\<open>nan\<close> in any case, or a decimal literal rounded
  to the nearest binary64 (an overflowing literal gives an infinity, not an error; there
  is no limit on the digits). \<open>None\<close> stands for the \<^verbatim>\<open>ValueError\<close>. In the literals of
  this definition 46 is the point, 101 and 69 are \<^verbatim>\<open>e\<close> and \<^verbatim>\<open>E\<close>.
\<close>

definition float_of_string :: "platform \<Rightarrow> ustring \<Rightarrow> pyfloat option" where
  "float_of_string P s =
     (case to_ascii P s of
        None \<Rightarrow> None
      | Some a \<Rightarrow>
          (case remove_underscores 0 (strip_ws a) of
             None \<Rightarrow> None
           | Some t \<Rightarrow>
               let (neg, u) = split_sign t;
                   l = map to_lower u
               in if l = ustr ''inf'' \<or> l = ustr ''infinity''
                  then Some (if neg then NegInf else PosInf)
                  else if l = ustr ''nan'' then Some NaN
                  else
                    (case parse_decimal u of
                       None \<Rightarrow> None
                     | Some (m, e) \<Rightarrow>
                         let v = (if 0 \<le> e then nearest_double (m * 10 ^ nat e) 1
                                  else nearest_double m (10 ^ nat (- e)))
                         in Some (if neg then float_neg v else v))))"

text \<open>
  \<^verbatim>\<open>float(i)\<close> of an integer: the nearest binary64, and an \<^verbatim>\<open>OverflowError\<close> (\<open>None\<close>)
  when that is out of range.
\<close>

definition float_of_int :: "int \<Rightarrow> pyfloat option" where
  "float_of_int i = (case nearest_double i 1 of Fin r \<Rightarrow> Some (Fin r) | _ \<Rightarrow> None)"

text \<open>\<^verbatim>\<open>int(x)\<close> of a float: truncation towards zero; NaN and the infinities raise.\<close>

definition int_of_float :: "pyfloat \<Rightarrow> int option" where
  "int_of_float x =
     (case x of Fin r \<Rightarrow> Some (if 0 \<le> r then \<lfloor>r\<rfloor> else \<lceil>r\<rceil>) | _ \<Rightarrow> None)"

subsection \<open>Values\<close>

text \<open>
  The values a model may carry as an attribute or return as a prediction. \<open>PyObject\<close> is
  any other object (a list, an array, an instance of a class): all the handler does with
  it is call \<^verbatim>\<open>int\<close> or \<^verbatim>\<open>float\<close>, so it is given by what these two calls return,
  \<open>None\<close> when the call raises an exception.
\<close>

datatype pyval =
    PyNone
  | PyBool bool
  | PyInt int
  | PyFloat pyfloat
  | PyStr ustring
  | PyObject "int option" "pyfloat option"

fun py_int :: "platform \<Rightarrow> pyval \<Rightarrow> int option" where
  "py_int P PyNone = None"
| "py_int P (PyBool b) = Some (if b then 1 else 0)"
| "py_int P (PyInt i) = Some i"
| "py_int P (PyFloat x) = int_of_float x"
| "py_int P (PyStr s) = int_of_string P s"
| "py_int P (PyObject i x) = i"

fun py_float :: "platform \<Rightarrow> pyval \<Rightarrow> pyfloat option" where
  "py_float P PyNone = None"
| "py_float P (PyBool b) = Some (Fin (if b then 1 else 0))"
| "py_float P (PyInt i) = float_of_int i"
| "py_float P (PyFloat x) = Some x"
| "py_float P (PyStr s) = float_of_string P s"
| "py_float P (PyObject i x) = x"

section \<open>The regular expression of the shape-mismatch fallback\<close>

text \<open>
  \<^verbatim>\<open>re.search(r"expected[: ]+(\d+)[, ]+got[: ]+(\d+)", msg)\<close> is called with no flag:
  the two words are matched as written, in lower case, and \<^verbatim>\<open>\d\<close> is any decimal
  digit of Unicode.

  \<open>match_at\<close> matches the pattern at the start of a string and returns the two groups.
  Every repetition takes the longest run of its character class. This is the only way the
  pattern can match at a position: what follows a repetition (a digit after \<^verbatim>\<open>[: ]+\<close>,
  a separator after \<^verbatim>\<open>\d+\<close>, the letter \<^verbatim>\<open>g\<close> after \<^verbatim>\<open>[, ]+\<close>) is outside its class,
  so a shorter run cannot be continued, and the last \<^verbatim>\<open>\d+\<close> is greedy. The colon is
  code point 58, the comma 44, the space 32.
\<close>

fun strip_prefix :: "ustring \<Rightarrow> ustring \<Rightarrow> ustring option" where
  "strip_prefix [] s = Some s"
| "strip_prefix (p # ps) [] = None"
| "strip_prefix (p # ps) (c # cs) = (if p = c then strip_prefix ps cs else None)"

definition is_colon_or_space :: "nat \<Rightarrow> bool" where
  "is_colon_or_space c = (c = 58 \<or> c = 32)"

definition is_comma_or_space :: "nat \<Rightarrow> bool" where
  "is_comma_or_space c = (c = 44 \<or> c = 32)"

definition match_at :: "platform \<Rightarrow> ustring \<Rightarrow> (ustring \<times> ustring) option" where
  "match_at P s =
     (case strip_prefix (ustr ''expected'') s of
        None \<Rightarrow> None
      | Some r1 \<Rightarrow>
          let r2 = dropWhile is_colon_or_space r1;
              g1 = takeWhile (is_decimal P) r2;
              r3 = dropWhile (is_decimal P) r2;
              r4 = dropWhile is_comma_or_space r3
          in if takeWhile is_colon_or_space r1 = [] \<or> g1 = []
                \<or> takeWhile is_comma_or_space r3 = [] then None
             else
               (case strip_prefix (ustr ''got'') r4 of
                  None \<Rightarrow> None
                | Some r5 \<Rightarrow>
                    let r6 = dropWhile is_colon_or_space r5;
                        g2 = takeWhile (is_decimal P) r6
                    in if takeWhile is_colon_or_space r5 = [] \<or> g2 = [] then None
                       else Some (g1, g2)))"

text \<open>\<^verbatim>\<open>re.search\<close>: the match at the leftmost position that has one.\<close>

fun re_search :: "platform \<Rightarrow> ustring \<Rightarrow> (ustring \<times> ustring) option" where
  "re_search P [] = match_at P []"
| "re_search P (c # cs) =
     (case match_at P (c # cs) of Some g \<Rightarrow> Some g | None \<Rightarrow> re_search P cs)"

declare re_search.simps [simp del]

section \<open>Models, requests and responses\<close>

text \<open>
  An exception raised by a model (an instance of \<^verbatim>\<open>Exception\<close>): a \<^verbatim>\<open>ValueError\<close> (or
  a subclass of it), which the first \<^verbatim>\<open>except\<close> clause catches, or any other one. It
  carries what \<^verbatim>\<open>str(e)\<close> returns, \<open>None\<close> when \<^verbatim>\<open>str(e)\<close> itself raises. Exceptions
  outside the \<^verbatim>\<open>Exception\<close> hierarchy (\<^verbatim>\<open>KeyboardInterrupt\<close>, \<^verbatim>\<open>SystemExit\<close>) are
  not modelled.
\<close>

datatype py_exc = ValueError "ustring option" | OtherException "ustring option"

fun exc_str :: "py_exc \<Rightarrow> ustring option" where
  "exc_str (ValueError msg) = msg"
| "exc_str (OtherException msg) = msg"

text \<open>
  How a request ends when it does not return scores.
  \<^item> \<open>HTTPException\<close>: the exception the handler raises, with its status code and detail.
  \<^item> \<open>ValidationError\<close>: raised by the response model when a field is missing.
  \<^item> The others are exceptions that no clause of the handler catches:
    \<open>Uncaught\<close> is raised by a property of the model inside \<^verbatim>\<open>hasattr\<close>;
    \<open>StrFailed\<close> by \<^verbatim>\<open>str(e)\<close> inside an \<^verbatim>\<open>except\<close> clause;
    \<open>IntValueError\<close> is the \<^verbatim>\<open>ValueError\<close> of \<^verbatim>\<open>int(m.group(1))\<close>;
    \<open>IndexOverflow\<close> is the \<^verbatim>\<open>OverflowError\<close> of \<^verbatim>\<open>[0.0] * n\<close> when \<open>n\<close> is above
    \<^verbatim>\<open>sys.maxsize\<close>; \<open>OutOfMemory\<close> is the \<^verbatim>\<open>MemoryError\<close> of a list that cannot be
    allocated; \<open>FloatOverflow\<close> is the \<^verbatim>\<open>OverflowError\<close> of \<^verbatim>\<open>float\<close> on an integer.
\<close>

datatype error =
    HTTPException nat ustring
  | ValidationError
  | Uncaught py_exc
  | StrFailed
  | IntValueError
  | IndexOverflow
  | OutOfMemory
  | FloatOverflow

text \<open>
  What \<^verbatim>\<open>hasattr(model, name)\<close> finds: no attribute (also a property that raises
  \<^verbatim>\<open>AttributeError\<close>), an attribute with a value, or a property that raises another
  exception, which \<^verbatim>\<open>hasattr\<close> lets through. (A property that answers \<^verbatim>\<open>hasattr\<close> and
  raises in the \<^verbatim>\<open>getattr\<close> that follows behaves, for the handler, as a value on which
  \<^verbatim>\<open>int\<close> raises.)
\<close>

datatype attr = Absent | Present pyval | Raising py_exc

text \<open>
  A model is an opaque object loaded from a file. The handler reads two attributes,
  \<^verbatim>\<open>n_features_in_\<close> and \<^verbatim>\<open>n_features_\<close> (the fields \<open>n_features_in\<close> and \<open>n_features\<close>: a
  name cannot end in an underscore here), and calls \<^verbatim>\<open>predict\<close> with a batch of feature
  vectors. A call may depend on and change state outside the handler (the model's own, a
  random generator): that state is \<open>'w\<close>, and \<open>predict\<close> returns the batch of predictions
  or the exception it raised, and the new state. A call leaves the list it was given as it
  is.
\<close>

record 'w model =
  n_features_in :: attr
  n_features :: attr
  predict :: "pyfloat list list \<Rightarrow> 'w \<Rightarrow> (py_exc + pyval list) \<times> 'w"

text \<open>
  The state a request runs in: the outside state, and a log of the calls to
  \<^verbatim>\<open>predict\<close> (the risk name and the feature vector of each call, oldest first). The log
  is not in the source: it records what the handler sends to the models, so that the
  theorems can speak of it.
\<close>

record 'w env =
  world :: 'w
  calls :: "(ustring \<times> pyfloat list) list"

record PersonalityInput =
  openness :: int
  conscientiousness :: int
  extraversion :: int
  agreeableness :: int
  neuroticism :: int

text \<open>The constraint \<^verbatim>\<open>conint(ge=0, le=100)\<close> on each field of a request.\<close>

definition valid_input :: "PersonalityInput \<Rightarrow> bool" where
  "valid_input i =
     (0 \<le> openness i \<and> openness i \<le> 100 \<and>
      0 \<le> conscientiousness i \<and> conscientiousness i \<le> 100 \<and>
      0 \<le> extraversion i \<and> extraversion i \<le> 100 \<and>
      0 \<le> agreeableness i \<and> agreeableness i \<le> 100 \<and>
      0 \<le> neuroticism i \<and> neuroticism i \<le> 100)"

record RiskScores =
  phishing_risk :: pyfloat
  weak_password_risk :: pyfloat
  oversharing_risk :: pyfloat
  emotional_manipulation_risk :: pyfloat
  update_ignorance_risk :: pyfloat

section \<open>Loading the models\<close>

text \<open>The dictionary \<^verbatim>\<open>MODEL_PATHS\<close>, in the order it is written (a dictionary keeps it).\<close>

definition MODEL_PATHS :: "(ustring \<times> ustring) list" where
  "MODEL_PATHS =
     [(ustr ''phishing_risk'', ustr ''models/phishing_risk_model.pkl''),
      (ustr ''weak_password_risk'', ustr ''models/weak_password_risk_model.pkl''),
      (ustr ''oversharing_risk'', ustr ''models/oversharing_risk_model.pkl''),
      (ustr ''emotional_manipulation_risk'',
       ustr ''models/emotional_manipulation_risk_model.pkl''),
      (ustr ''update_ignorance_risk'', ustr ''models/update_ignorance_risk_model.pkl'')]"

text \<open>
  The loop that fills \<^verbatim>\<open>models\<close> at import time. The file system is a map from a path
  to the model \<^verbatim>\<open>joblib.load\<close> reads there, \<open>None\<close> where \<^verbatim>\<open>os.path.exists\<close> is false
  (a file that exists and does not load is not modelled). A missing file raises the
  \<^verbatim>\<open>RuntimeError\<close>, whose message is the result, and nothing is served.
\<close>

fun load_models ::
  "(ustring \<Rightarrow> 'w model option) \<Rightarrow> (ustring \<times> ustring) list \<Rightarrow> (ustring \<times> 'w model) list
     \<Rightarrow> ustring + (ustring \<times> 'w model) list" where
  "load_models fs [] models = Inr models"
| "load_models fs ((risk, path) # rest) models =
     (case fs path of
        None \<Rightarrow> Inl (ustr ''Model file not found: '' @ path)
      | Some m \<Rightarrow> load_models fs rest (AList.update risk m models))"

section \<open>The handler \<^verbatim>\<open>predict_risks\<close>\<close>

text \<open>
  \<^verbatim>\<open>base_features\<close>: the five fields through \<^verbatim>\<open>float\<close>, in order. An \<^verbatim>\<open>OverflowError\<close>
  of \<^verbatim>\<open>float\<close> would not be caught; no validated request raises it.
\<close>

fun float_all :: "int list \<Rightarrow> error + pyfloat list" where
  "float_all [] = Inr []"
| "float_all (i # is) =
     (case float_of_int i of
        None \<Rightarrow> Inl FloatOverflow
      | Some x \<Rightarrow> (case float_all is of Inl e \<Rightarrow> Inl e | Inr xs \<Rightarrow> Inr (x # xs)))"

definition base_features :: "PersonalityInput \<Rightarrow> error + pyfloat list" where
  "base_features input =
     float_all [openness input, conscientiousness input, extraversion input,
                agreeableness input, neuroticism input]"

text \<open>
  Lines 76 to 86, the expected feature count: \<^verbatim>\<open>n_features_in_\<close> when the model has it,
  else \<^verbatim>\<open>n_features_\<close> when the model has that; \<^verbatim>\<open>int\<close> of the attribute, and \<open>None\<close>
  when \<^verbatim>\<open>int\<close> raises. The second attribute is read only when the first is absent
  (\<^verbatim>\<open>elif\<close>). An exception that \<^verbatim>\<open>hasattr\<close> lets through is not caught.
\<close>

definition detect_expected :: "platform \<Rightarrow> 'w model \<Rightarrow> error + int option" where
  "detect_expected P m =
     (case n_features_in m of
        Raising e \<Rightarrow> Inl (Uncaught e)
      | Present v \<Rightarrow> Inr (py_int P v)
      | Absent \<Rightarrow>
          (case n_features m of
             Raising e \<Rightarrow> Inl (Uncaught e)
           | Present v \<Rightarrow> Inr (py_int P v)
           | Absent \<Rightarrow> Inr None))"

text \<open>The slice \<^verbatim>\<open>xs[:k]\<close>: a negative \<open>k\<close> counts from the end.\<close>

definition slice_to :: "'a list \<Rightarrow> int \<Rightarrow> 'a list" where
  "slice_to xs k = (if 0 \<le> k then take (nat k) xs else take (nat (int (length xs) + k)) xs)"

text \<open>
  \<^verbatim>\<open>features += [0.0] * (n - len(features))\<close>, for \<open>n\<close> above the length. The product
  raises \<^verbatim>\<open>OverflowError\<close> when the count is above \<^verbatim>\<open>sys.maxsize\<close>, and the lists cannot
  be allocated (\<^verbatim>\<open>MemoryError\<close>) when the result is longer than the platform allows.
\<close>

definition pad_to :: "platform \<Rightarrow> int \<Rightarrow> pyfloat list \<Rightarrow> error + pyfloat list" where
  "pad_to P n features =
     (if maxsize P < n - int (length features) then Inl IndexOverflow
      else if max_list P < n then Inl OutOfMemory
      else Inr (features @ replicate (nat (n - int (length features))) (Fin 0)))"

text \<open>Lines 88 to 94: pad or trim the copy of the base vector.\<close>

definition reshape :: "platform \<Rightarrow> int option \<Rightarrow> pyfloat list \<Rightarrow> error + pyfloat list" where
  "reshape P expected features =
     (case expected of
        None \<Rightarrow> Inr features
      | Some e \<Rightarrow>
          if e \<noteq> int (length features) then
            (if int (length features) < e then pad_to P e features
             else Inr (slice_to features e))
          else Inr features)"

text \<open>
  Lines 73 to 94 together: the vector the first call will get, or the uncaught exception
  that ends the request before any call.
\<close>

definition working_vector :: "platform \<Rightarrow> 'w model \<Rightarrow> pyfloat list \<Rightarrow> error + pyfloat list" where
  "working_vector P m base =
     (case detect_expected P m of
        Inl e \<Rightarrow> Inl e
      | Inr expected \<Rightarrow> reshape P expected base)"

text \<open>
  \<^verbatim>\<open>model.predict([features])[0]\<close>: one call with a batch of one vector, logged, and the
  first element of what it returns (an \<^verbatim>\<open>IndexError\<close> when there is none).
\<close>

definition predict_first ::
  "ustring \<Rightarrow> 'w model \<Rightarrow> pyfloat list \<Rightarrow> 'w env \<Rightarrow> (py_exc + pyval) \<times> 'w env" where
  "predict_first risk m features s =
     (let (r, w) = predict m [features] (world s);
          s' = \<lparr>world = w, calls = calls s @ [(risk, features)]\<rparr>
      in case r of
           Inl e \<Rightarrow> (Inl e, s')
         | Inr [] \<Rightarrow> (Inl (OtherException (Some (ustr ''list index out of range''))), s')
         | Inr (p # ps) \<Rightarrow> (Inr p, s'))"

text \<open>
  The \<^verbatim>\<open>except\<close> clauses that turn an exception into an \<^verbatim>\<open>HTTPException\<close> with
  \<^verbatim>\<open>str(e)\<close> in its detail; \<^verbatim>\<open>str(e)\<close> is evaluated inside the clause.
\<close>

definition http_error :: "string \<Rightarrow> ustring option \<Rightarrow> error" where
  "http_error prefix msg =
     (case msg of None \<Rightarrow> StrFailed | Some t \<Rightarrow> HTTPException 500 (ustr prefix @ t))"

text \<open>
  Lines 96 to 120: the prediction, and the retry after a shape mismatch. What is raised
  inside the \<^verbatim>\<open>except ValueError\<close> clause (by \<^verbatim>\<open>str\<close>, by \<^verbatim>\<open>int\<close>, by the padding) is
  not caught by the clause after it.
\<close>

definition attempt_prediction ::
  "platform \<Rightarrow> ustring \<Rightarrow> 'w model \<Rightarrow> pyfloat list \<Rightarrow> 'w env \<Rightarrow> (error + pyval) \<times> 'w env" where
  "attempt_prediction P risk m features s =
     (case predict_first risk m features s of
        (Inr pred, s1) \<Rightarrow> (Inr pred, s1)
      | (Inl (ValueError None), s1) \<Rightarrow> (Inl StrFailed, s1)
      | (Inl (ValueError (Some msg)), s1) \<Rightarrow>
          (case re_search P msg of
             Some (g1, g2) \<Rightarrow>
               (case int_of_string P g1 of
                  None \<Rightarrow> (Inl IntValueError, s1)
                | Some n1 \<Rightarrow>
                    if int (length features) < n1 then
                      (case pad_to P n1 features of
                         Inl err \<Rightarrow> (Inl err, s1)
                       | Inr padded \<Rightarrow>
                           (case predict_first risk m padded s1 of
                              (Inr pred, s2) \<Rightarrow> (Inr pred, s2)
                            | (Inl e2, s2) \<Rightarrow>
                                (Inl (http_error ''Prediction error after padding: ''
                                        (exc_str e2)), s2)))
                    else (Inl (HTTPException 500 (ustr ''Prediction error: '' @ msg)), s1))
           | None \<Rightarrow> (Inl (HTTPException 500 (ustr ''Prediction error: '' @ msg)), s1))
      | (Inl (OtherException msg), s1) \<Rightarrow> (Inl (http_error ''Prediction error: '' msg), s1))"

text \<open>\<^verbatim>\<open>max(0.0, min(100.0, val))\<close>\<close>

definition clamp :: "pyfloat \<Rightarrow> pyfloat" where
  "clamp val = py_max (Fin 0) (py_min (Fin 100) val)"

text \<open>The body of the loop, lines 72 to 128, for one model: the score, or the error.\<close>

definition predict_one ::
  "platform \<Rightarrow> ustring \<Rightarrow> 'w model \<Rightarrow> pyfloat list \<Rightarrow> 'w env \<Rightarrow> (error + pyfloat) \<times> 'w env" where
  "predict_one P risk m base s =
     (case working_vector P m base of
        Inl e \<Rightarrow> (Inl e, s)
      | Inr features \<Rightarrow>
          (case attempt_prediction P risk m features s of
             (Inl e, s') \<Rightarrow> (Inl e, s')
           | (Inr pred, s') \<Rightarrow>
               (case py_float P pred of
                  None \<Rightarrow>
                    (Inl (HTTPException 500
                           (ustr ''Model returned non-numeric prediction for '' @ risk)), s')
                | Some val \<Rightarrow> (Inr (clamp val), s'))))"

text \<open>
  The loop over \<^verbatim>\<open>models.items()\<close>, with the dictionary \<^verbatim>\<open>results\<close> it fills: the first
  error ends the request.
\<close>

fun predict_loop ::
  "platform \<Rightarrow> (ustring \<times> 'w model) list \<Rightarrow> pyfloat list \<Rightarrow> (ustring \<rightharpoonup> pyfloat) \<Rightarrow> 'w env
     \<Rightarrow> (error + (ustring \<rightharpoonup> pyfloat)) \<times> 'w env" where
  "predict_loop P [] base results s = (Inr results, s)"
| "predict_loop P ((risk, m) # rest) base results s =
     (case predict_one P risk m base s of
        (Inl e, s') \<Rightarrow> (Inl e, s')
      | (Inr v, s') \<Rightarrow> predict_loop P rest base (results(risk \<mapsto> v)) s')"

text \<open>
  \<^verbatim>\<open>RiskScores(**results)\<close>: the five fields are required (a key that is no field is
  ignored).
\<close>

definition make_RiskScores :: "(ustring \<rightharpoonup> pyfloat) \<Rightarrow> error + RiskScores" where
  "make_RiskScores results =
     (case (results (ustr ''phishing_risk''), results (ustr ''weak_password_risk''),
            results (ustr ''oversharing_risk''), results (ustr ''emotional_manipulation_risk''),
            results (ustr ''update_ignorance_risk'')) of
        (Some a, Some b, Some c, Some d, Some e) \<Rightarrow>
          Inr \<lparr>phishing_risk = a, weak_password_risk = b, oversharing_risk = c,
               emotional_manipulation_risk = d, update_ignorance_risk = e\<rparr>
      | _ \<Rightarrow> Inl ValidationError)"

text \<open>The handler. The global \<^verbatim>\<open>models\<close> is its second argument.\<close>

definition predict_risks ::
  "platform \<Rightarrow> (ustring \<times> 'w model) list \<Rightarrow> PersonalityInput \<Rightarrow> 'w env
     \<Rightarrow> (error + RiskScores) \<times> 'w env" where
  "predict_risks P models input s =
     (case base_features input of
        Inl e \<Rightarrow> (Inl e, s)
      | Inr base \<Rightarrow>
          (case predict_loop P models base Map.empty s of
             (Inl e, s') \<Rightarrow> (Inl e, s')
           | (Inr results, s') \<Rightarrow> (make_RiskScores results, s')))"

section \<open>Notions the theorems use\<close>

text \<open>
  What it means for the pattern \<^verbatim>\<open>expected[: ]+(\d+)[, ]+got[: ]+(\d+)\<close> to match at
  the start of a string with the groups \<open>d1\<close> and \<open>d2\<close>, said without an algorithm:
  the string is the word, separators, digits, separators, the word, separators, digits, and
  anything after.
\<close>

definition pattern_at :: "platform \<Rightarrow> ustring \<Rightarrow> ustring \<Rightarrow> ustring \<Rightarrow> bool" where
  "pattern_at P s d1 d2 =
     (\<exists>sep1 sep2 sep3 rest.
        s = ustr ''expected'' @ sep1 @ d1 @ sep2 @ ustr ''got'' @ sep3 @ d2 @ rest \<and>
        sep1 \<noteq> [] \<and> list_all is_colon_or_space sep1 \<and>
        d1 \<noteq> [] \<and> list_all (is_decimal P) d1 \<and>
        sep2 \<noteq> [] \<and> list_all is_comma_or_space sep2 \<and>
        sep3 \<noteq> [] \<and> list_all is_colon_or_space sep3 \<and>
        d2 \<noteq> [] \<and> list_all (is_decimal P) d2)"

text \<open>The calls to \<^verbatim>\<open>predict\<close> logged between two states, oldest first.\<close>

definition new_calls :: "'w env \<Rightarrow> 'w env \<Rightarrow> (ustring \<times> pyfloat list) list" where
  "new_calls s s' = drop (length (calls s)) (calls s')"

text \<open>A score: a finite float in the closed interval from 0 to 100.\<close>

definition is_score :: "pyfloat \<Rightarrow> bool" where
  "is_score v = (case v of Fin r \<Rightarrow> 0 \<le> r \<and> r \<le> 100 | PosInf \<Rightarrow> False | NegInf \<Rightarrow> False | NaN \<Rightarrow> False)"

text \<open>
  A model whose prediction function is deterministic: what a call returns or raises is
  decided by the batch alone, whatever the outside state.
\<close>

definition deterministic :: "'w model \<Rightarrow> bool" where
  "deterministic m = (\<forall>batch w w'. fst (predict m batch w) = fst (predict m batch w'))"

subsection \<open>Example platform, models and requests\<close>

text \<open>
  A 64-bit platform with the default limit of 4300 digits, room for lists of up to
  \<open>2 ^ 32\<close> elements, and a Unicode database cut down to the Arabic-Indic digits (from
  code point 1632) and two white spaces.
\<close>

definition example_platform :: platform where
  "example_platform =
     \<lparr>unicode_decimal = (\<lambda>c. if 1632 \<le> c \<and> c \<le> 1641 then Some (c - 1632) else None),
      unicode_space = (\<lambda>c. c = 133 \<or> c = 160),
      max_str_digits = 4300,
      maxsize = 9223372036854775807,
      max_list = 4294967296\<rparr>"

text \<open>
  The examples run in an outside state that counts the calls to \<^verbatim>\<open>predict\<close>.
  \<open>constant_model\<close> predicts the same value for every vector of a batch.
  \<open>strict_model\<close> does so for vectors of one length only, and raises a
  \<^verbatim>\<open>ValueError\<close> with a given message for any other batch.
  \<open>failing_model\<close> raises that \<^verbatim>\<open>ValueError\<close> on the first call of the process and
  another exception from then on.
  \<open>flaky_model\<close> raises a given exception on the first call of the process and predicts a
  value from then on.
  \<open>drifting_model\<close> predicts the number of calls made so far.
\<close>

definition constant_model :: "attr \<Rightarrow> attr \<Rightarrow> pyval \<Rightarrow> nat model" where
  "constant_model a b v =
     \<lparr>n_features_in = a, n_features = b,
      predict = (\<lambda>batch w. (Inr (map (\<lambda>x. v) batch), Suc w))\<rparr>"

definition strict_model :: "attr \<Rightarrow> nat \<Rightarrow> string \<Rightarrow> pyval \<Rightarrow> nat model" where
  "strict_model a n msg v =
     \<lparr>n_features_in = a, n_features = Absent,
      predict = (\<lambda>batch w.
        (if list_all (\<lambda>x. length x = n) batch then Inr (map (\<lambda>x. v) batch)
         else Inl (ValueError (Some (ustr msg))), Suc w))\<rparr>"


definition flaky_model :: "py_exc \<Rightarrow> pyval \<Rightarrow> nat model" where
  "flaky_model e v =
     \<lparr>n_features_in = Absent, n_features = Absent,
      predict = (\<lambda>batch w. (if w = 0 then Inl e else Inr (map (\<lambda>x. v) batch), Suc w))\<rparr>"

definition drifting_model :: "nat model" where
  "drifting_model =
     \<lparr>n_features_in = Absent, n_features = Absent,
      predict = (\<lambda>batch w. (Inr (map (\<lambda>x. PyInt (int w)) batch), Suc w))\<rparr>"

definition example_input :: PersonalityInput where
  "example_input =
     \<lparr>openness = 0, conscientiousness = 20, extraversion = 30, agreeableness = 40,
      neuroticism = 100\<rparr>"

definition example_base :: "pyfloat list" where
  "example_base = [Fin 0, Fin 20, Fin 30, Fin 40, Fin 100]"

definition start :: "nat env" where
  "start = \<lparr>world = 0, calls = []\<rparr>"

text \<open>A file system with the five model files: two kinds of model.\<close>

definition example_files :: "ustring \<Rightarrow> nat model option" where
  "example_files path =
     (if path = ustr ''models/phishing_risk_model.pkl''
      then Some (strict_model (Present (PyInt 3)) 7 ''expected 7, got 3'' (PyStr (ustr ''42'')))
      else if path \<in> snd ` set MODEL_PATHS
      then Some (constant_model Absent (Present (PyInt 8)) (PyFloat (Fin 142.7)))
      else None)"

definition example_models :: "(ustring \<times> nat model) list" where
  "example_models =
     [(ustr ''phishing_risk'',
       strict_model (Present (PyInt 3)) 7 ''expected 7, got 3'' (PyStr (ustr ''42''))),
      (ustr ''weak_password_risk'',
       constant_model Absent (Present (PyInt 8)) (PyFloat (Fin 142.7))),
      (ustr ''oversharing_risk'',
       constant_model Absent (Present (PyInt 8)) (PyFloat (Fin 142.7))),
      (ustr ''emotional_manipulation_risk'',
       constant_model Absent (Present (PyInt 8)) (PyFloat (Fin 142.7))),
      (ustr ''update_ignorance_risk'',
       constant_model Absent (Present (PyInt 8)) (PyFloat (Fin 142.7)))]"

section \<open>Properties of the coercions\<close>

lemma bit_length_bounds:
  "0 < n \<Longrightarrow> 2 ^ (bit_length n - 1) \<le> n \<and> n < 2 ^ bit_length n"
proof (induction n rule: bit_length.induct)
  case (1 n)
  show ?case
  proof (cases "n div 2 = 0")
    case True
    with "1.prems" have "n = 1" by presburger
    then show ?thesis by (simp add: bit_length.simps)
  next
    case False
    with "1.prems" have pos: "0 < n div 2" by presburger
    with "1.IH" "1.prems" have ih: "2 ^ (bit_length (n div 2) - 1) \<le> n div 2" "n div 2 < 2 ^ bit_length (n div 2)"
      by auto
    have bl: "bit_length n = Suc (bit_length (n div 2))"
      using "1.prems" by (subst bit_length.simps) simp
    have blpos: "0 < bit_length (n div 2)"
      using pos by (subst bit_length.simps) simp
    then obtain k where k: "bit_length (n div 2) = Suc k" by (cases "bit_length (n div 2)") auto
    from ih k have "2 * 2 ^ k \<le> n" "n < 2 * 2 ^ Suc k" by auto
    then show ?thesis by (simp add: bl k)
  qed
qed

lemma bit_length_one: "bit_length 1 = 1"
  by (simp add: bit_length.simps)

lemma nearest_double_exact:
  assumes "0 < a" "a < 2 ^ 53"
  shows "nearest_double a 1 = Fin (real_of_int a)"
    and "nearest_double (- a) 1 = Fin (- real_of_int a)"
proof -
  from bit_length_bounds[OF assms(1)]
  have lo: "2 ^ (bit_length a - 1) \<le> a" and hi: "a < 2 ^ bit_length a" by auto
  have blpos: "0 < bit_length a"
    using assms(1) by (subst bit_length.simps) simp
  have "(2::int) ^ (bit_length a - 1) < 2 ^ 53" using lo assms(2) by linarith
  then have ble: "bit_length a - 1 < 53" by (simp only: power_strict_increasing_iff) 
  define e where "e = int (bit_length a) - 1"
  have e0: "0 \<le> e" "e \<le> 52" using blpos ble by (auto simp: e_def)
  have nat_e: "nat e = bit_length a - 1" using blpos by (simp add: e_def)
  have il: "ilog2_ratio a 1 = e"
    using lo e0 by (simp add: ilog2_ratio_def bit_length_one e_def[symmetric] nat_e Let_def)
  have q: "max e (- 1022) - 52 = e - 52" using e0 by simp
  have rhe: "round_half_even n 1 = n" for n by (simp add: round_half_even_def)
  have small: "\<not> (2::real) ^ 1024 \<le> real_of_int a"
  proof -
    have "real_of_int a < 2 ^ 53" using assms(2) by (metis of_int_less_numeral_power_cancel_iff)
    moreover have "(2::real) ^ 53 \<le> 2 ^ 1024" by (rule power_increasing) auto
    ultimately show ?thesis by linarith
  qed
  have nz: "a \<noteq> 0" "\<bar>a\<bar> = a" using assms(1) by auto
  show "nearest_double a 1 = Fin (real_of_int a)"
    using e0 assms(1) small
    by (simp add: nearest_double_def nz il q rhe Let_def)
  show "nearest_double (- a) 1 = Fin (- real_of_int a)"
    using e0 assms(1) small
    by (simp add: nearest_double_def nz il q rhe Let_def)
qed

lemma float_of_int_exact: "\<bar>i\<bar> < 2 ^ 53 \<Longrightarrow> float_of_int i = Some (Fin (real_of_int i))"
proof -
  assume a: "\<bar>i\<bar> < 2 ^ 53"
  consider "i = 0" | "0 < i" | "i < 0" by linarith
  then show ?thesis
  proof cases
    case 1 then show ?thesis by (simp add: float_of_int_def nearest_double_def)
  next
    case 2 with a nearest_double_exact(1)[of i] show ?thesis by (simp add: float_of_int_def)
  next
    case 3 with a nearest_double_exact(2)[of "- i"] show ?thesis by (simp add: float_of_int_def)
  qed
qed

subsection \<open>The regular expression\<close>

lemma strip_prefix_Some: "strip_prefix p s = Some r \<longleftrightarrow> s = p @ r"
  by (induction p s rule: strip_prefix.induct) auto

lemma list_all_takeWhile: "list_all P (takeWhile P xs)"
  by (induction xs) auto

lemma takeWhile_run:
  "list_all P xs \<Longrightarrow> ys = [] \<or> \<not> P (hd ys) \<Longrightarrow> takeWhile P (xs @ ys) = xs"
  by (induction xs) (auto simp: takeWhile_eq_Nil_iff)

lemma dropWhile_run:
  "list_all P xs \<Longrightarrow> ys = [] \<or> \<not> P (hd ys) \<Longrightarrow> dropWhile P (xs @ ys) = ys"
  by (induction xs) (auto simp: dropWhile_eq_self_iff)

lemma digit_not_separator:
  "is_decimal P c \<Longrightarrow> \<not> is_colon_or_space c \<and> \<not> is_comma_or_space c"
  by (auto simp: is_decimal_def is_ascii_digit_def is_colon_or_space_def is_comma_or_space_def)

lemma separator_not_digit:
  "is_colon_or_space c \<or> is_comma_or_space c \<Longrightarrow> \<not> is_decimal P c"
  using digit_not_separator by blast

text \<open>A match found by \<open>match_at\<close> is a match of the pattern at that position.\<close>

lemma match_at_sound:
  assumes "match_at P s = Some (g1, g2)"
  shows "pattern_at P s g1 g2"
proof -
  from assms obtain r1 where r1: "strip_prefix (ustr ''expected'') s = Some r1"
    by (auto simp: match_at_def split: option.splits)
  define sep1 where "sep1 = takeWhile is_colon_or_space r1"
  define r2 where "r2 = dropWhile is_colon_or_space r1"
  define r3 where "r3 = dropWhile (is_decimal P) r2"
  define sep2 where "sep2 = takeWhile is_comma_or_space r3"
  define r4 where "r4 = dropWhile is_comma_or_space r3"
  from assms r1 have ne1: "sep1 \<noteq> []" "takeWhile (is_decimal P) r2 \<noteq> []" "sep2 \<noteq> []"
    by (auto simp: match_at_def Let_def sep1_def r2_def r3_def sep2_def
             split: option.splits if_splits)
  from assms r1 obtain r5 where r5: "strip_prefix (ustr ''got'') r4 = Some r5"
    by (auto simp: match_at_def Let_def r2_def r3_def r4_def split: option.splits if_splits)
  define sep3 where "sep3 = takeWhile is_colon_or_space r5"
  define r6 where "r6 = dropWhile is_colon_or_space r5"
  from assms r1 r5 have res: "sep3 \<noteq> []" "g1 = takeWhile (is_decimal P) r2"
      "g2 = takeWhile (is_decimal P) r6" "g2 \<noteq> []"
    by (auto simp: match_at_def Let_def r2_def r3_def r4_def sep3_def r6_def
             split: option.splits if_splits)
  have "s = ustr ''expected'' @ r1" using r1 by (simp only: strip_prefix_Some)
  moreover have "r1 = sep1 @ r2" by (simp add: sep1_def r2_def)
  moreover have "r2 = g1 @ r3" by (simp add: res(2) r3_def)
  moreover have "r3 = sep2 @ r4" by (simp add: sep2_def r4_def)
  moreover have "r4 = ustr ''got'' @ r5" using r5 by (simp only: strip_prefix_Some)
  moreover have "r5 = sep3 @ r6" by (simp add: sep3_def r6_def)
  moreover have "r6 = g2 @ dropWhile (is_decimal P) r6" by (simp add: res(3))
  ultimately have
    "s = ustr ''expected'' @ sep1 @ g1 @ sep2 @ ustr ''got'' @ sep3 @ g2 @ dropWhile (is_decimal P) r6"
    by simp
  moreover have "list_all is_colon_or_space sep1" "list_all (is_decimal P) g1"
      "list_all is_comma_or_space sep2" "list_all is_colon_or_space sep3" "list_all (is_decimal P) g2"
    by (simp_all add: sep1_def res(2,3) sep2_def sep3_def list_all_takeWhile)
  ultimately show ?thesis
    unfolding pattern_at_def using ne1 res by blast
qed

text \<open>
  Where the pattern matches at a position, \<open>match_at\<close> finds a match there, with the same
  first number (the second number is taken as long as it goes).
\<close>

lemma match_at_complete:
  assumes "pattern_at P s d1 d2"
  shows "\<exists>more. match_at P s = Some (d1, d2 @ more)"
proof -
  from assms obtain sep1 sep2 sep3 rest where
    s: "s = ustr ''expected'' @ sep1 @ d1 @ sep2 @ ustr ''got'' @ sep3 @ d2 @ rest" and
    ne: "sep1 \<noteq> []" "d1 \<noteq> []" "sep2 \<noteq> []" "sep3 \<noteq> []" "d2 \<noteq> []" and
    cl: "list_all is_colon_or_space sep1" "list_all (is_decimal P) d1"
        "list_all is_comma_or_space sep2" "list_all is_colon_or_space sep3"
        "list_all (is_decimal P) d2"
    unfolding pattern_at_def by blast
  have hd1: "\<not> is_colon_or_space (hd (d1 @ t))" "\<not> is_comma_or_space (hd (d1 @ t))" for t
    using ne(2) cl(2) digit_not_separator[of P "hd d1"] by (cases d1; simp)+
  have hd2: "\<not> is_colon_or_space (hd (d2 @ t))" for t
    using ne(5) cl(5) digit_not_separator[of P "hd d2"] by (cases d2; simp)
  have hs2: "\<not> is_decimal P (hd (sep2 @ t))" for t
    using ne(3) cl(3) separator_not_digit[of "hd sep2" P] by (cases sep2; simp)
  have hg: "\<not> is_comma_or_space (hd (ustr ''got'' @ t))" for t
    by (simp add: is_comma_or_space_def ustr_def)
  let ?r1 = "sep1 @ d1 @ sep2 @ ustr ''got'' @ sep3 @ d2 @ rest"
  let ?r2 = "d1 @ sep2 @ ustr ''got'' @ sep3 @ d2 @ rest"
  let ?r3 = "sep2 @ ustr ''got'' @ sep3 @ d2 @ rest"
  let ?r4 = "ustr ''got'' @ sep3 @ d2 @ rest"
  let ?r5 = "sep3 @ d2 @ rest"
  let ?r6 = "d2 @ rest"
  have p1: "strip_prefix (ustr ''expected'') s = Some ?r1"
    unfolding strip_prefix_Some s by simp
  have t1: "takeWhile is_colon_or_space ?r1 = sep1" "dropWhile is_colon_or_space ?r1 = ?r2"
    by (rule takeWhile_run[OF cl(1)] dropWhile_run[OF cl(1)], rule disjI2, rule hd1(1))+
  have t2: "takeWhile (is_decimal P) ?r2 = d1" "dropWhile (is_decimal P) ?r2 = ?r3"
    by (rule takeWhile_run[OF cl(2)] dropWhile_run[OF cl(2)], rule disjI2, rule hs2)+
  have t3: "takeWhile is_comma_or_space ?r3 = sep2" "dropWhile is_comma_or_space ?r3 = ?r4"
    by (rule takeWhile_run[OF cl(3)] dropWhile_run[OF cl(3)], rule disjI2, rule hg)+
  have p2: "strip_prefix (ustr ''got'') ?r4 = Some ?r5"
    unfolding strip_prefix_Some by simp
  have t4: "takeWhile is_colon_or_space ?r5 = sep3" "dropWhile is_colon_or_space ?r5 = ?r6"
    by (rule takeWhile_run[OF cl(4)] dropWhile_run[OF cl(4)], rule disjI2, rule hd2)+
  have t5: "takeWhile (is_decimal P) ?r6 = d2 @ takeWhile (is_decimal P) rest"
    using cl(5) by (simp add: takeWhile_append2 list_all_iff)
  have "match_at P s = Some (d1, d2 @ takeWhile (is_decimal P) rest)"
    unfolding match_at_def p1 option.case Let_def t1 t2 t3 p2 t4 t5 using ne by simp
  then show ?thesis by blast
qed

text \<open>
  \<open>re_search\<close> finds a match exactly when the pattern matches at some position of the
  message, and what it returns is a match at the first such position.
\<close>

lemma re_search_sound:
  "re_search P msg = Some (g1, g2) \<Longrightarrow>
   \<exists>before from_here. msg = before @ from_here \<and> pattern_at P from_here g1 g2 \<and>
     (\<forall>b f d1 d2. msg = b @ f \<and> length b < length before \<longrightarrow> \<not> pattern_at P f d1 d2)"
proof (induction msg)
  case Nil
  then have "pattern_at P [] g1 g2" by (simp add: re_search.simps match_at_sound)
  then show ?case by auto
next
  case (Cons c cs)
  show ?case
  proof (cases "match_at P (c # cs)")
    case (Some g)
    with Cons.prems have "match_at P (c # cs) = Some (g1, g2)" by (simp add: re_search.simps)
    then have "pattern_at P (c # cs) g1 g2" by (rule match_at_sound)
    then have "c # cs = [] @ (c # cs) \<and> pattern_at P (c # cs) g1 g2 \<and>
      (\<forall>b f d1 d2. c # cs = b @ f \<and> length b < length ([]::ustring) \<longrightarrow> \<not> pattern_at P f d1 d2)"
      by simp
    then show ?thesis by blast
  next
    case None
    with Cons.prems have "re_search P cs = Some (g1, g2)" by (simp add: re_search.simps)
    from Cons.IH[OF this] obtain before from_here where
      ih: "cs = before @ from_here" "pattern_at P from_here g1 g2"
          "\<forall>b f d1 d2. cs = b @ f \<and> length b < length before \<longrightarrow> \<not> pattern_at P f d1 d2"
      by blast
    have no: "\<not> pattern_at P (c # cs) d1 d2" for d1 d2
      using None match_at_complete[of P "c # cs" d1 d2] by auto
    have "\<not> pattern_at P f d1 d2"
      if "c # cs = b @ f" "length b < length (c # before)" for b f d1 d2
    proof (cases b)
      case Nil
      with that(1) no show ?thesis by simp
    next
      case (Cons x b')
      with that have "cs = b' @ f" "length b' < length before" by simp_all
      with ih(3) show ?thesis by blast
    qed
    with ih(1,2) have "c # cs = (c # before) @ from_here \<and> pattern_at P from_here g1 g2 \<and>
      (\<forall>b f d1 d2. c # cs = b @ f \<and> length b < length (c # before) \<longrightarrow> \<not> pattern_at P f d1 d2)"
      by simp
    then show ?thesis by blast
  qed
qed

lemma re_search_complete:
  "pattern_at P from_here d1 d2 \<Longrightarrow> re_search P (before @ from_here) \<noteq> None"
proof (induction before)
  case Nil
  from match_at_complete[OF Nil] obtain more where "match_at P from_here = Some (d1, d2 @ more)"
    by blast
  then show ?case by (cases from_here) (simp_all add: re_search.simps)
next
  case (Cons c before)
  then show ?case by (simp add: re_search.simps split: option.splits)
qed

lemma re_search_examples:
  "re_search P (ustr ''expected 7, got 5'') = Some (ustr ''7'', ustr ''5'') \<and>
   re_search P (ustr ''Expected 7, got 5'') = None \<and>
   re_search P (ustr ''EXPECTED 7, GOT 5'') = None \<and>
   re_search P (ustr ''expected: 7 got: 5'') = Some (ustr ''7'', ustr ''5'') \<and>
   re_search P (ustr ''expected=7; got=5'') = None"
  by (simp add: re_search.simps match_at_def ustr_def is_decimal_def is_ascii_digit_def
                is_colon_or_space_def is_comma_or_space_def)

text \<open>
  A digit of another script is a digit for the pattern and for \<^verbatim>\<open>int\<close>: on the example
  platform the Arabic-Indic seven (code point 1639) is matched and read as 7.
\<close>

lemma re_search_other_script:
  "re_search example_platform (ustr ''expected '' @ [1639] @ ustr '', got 5'') =
     Some ([1639], ustr ''5'') \<and>
   int_of_string example_platform [1639] = Some 7"
  by (simp add: re_search.simps match_at_def ustr_def is_decimal_def is_ascii_digit_def
                is_colon_or_space_def is_comma_or_space_def example_platform_def
                int_of_string_def split_sign_def is_ascii_space_def int_of_digits_def)

section \<open>Properties of the handler\<close>

subsection \<open>Literals\<close>

lemma ustr_eq_iff [simp]: "ustr a = ustr b \<longleftrightarrow> a = b"
proof -
  have "inj (of_char :: char \<Rightarrow> nat)"
    by (rule injI) simp
  then show ?thesis
    unfolding ustr_def by (simp add: inj_map_eq_map)
qed

lemma ustr_append_eq_iff [simp]: "ustr a @ x = ustr a @ y \<longleftrightarrow> x = y"
  by simp

subsection \<open>One call, and the attempt with its retry\<close>

lemma predict_first_calls:
  "predict_first risk m features s = (r, s') \<Longrightarrow> calls s' = calls s @ [(risk, features)]"
  by (auto simp: predict_first_def Let_def split: prod.splits sum.splits list.splits)

lemma pad_to_Inr:
  "pad_to P n features = Inr padded \<Longrightarrow>
   padded = features @ replicate (nat (n - int (length features))) (Fin 0)"
  by (auto simp: pad_to_def split: if_splits)

lemma pad_to_fits:
  "n - int (length features) \<le> maxsize P \<Longrightarrow> n \<le> max_list P \<Longrightarrow>
   pad_to P n features = Inr (features @ replicate (nat (n - int (length features))) (Fin 0))"
  by (simp add: pad_to_def)

lemma attempt_first_ok:
  "predict_first risk m features s = (Inr pred, s1) \<Longrightarrow>
   attempt_prediction P risk m features s = (Inr pred, s1)"
  by (simp add: attempt_prediction_def)

lemma attempt_other_exception:
  "predict_first risk m features s = (Inl (OtherException msg), s1) \<Longrightarrow>
   attempt_prediction P risk m features s = (Inl (http_error ''Prediction error: '' msg), s1)"
  by (simp add: attempt_prediction_def)

lemma attempt_str_fails:
  "predict_first risk m features s = (Inl (ValueError None), s1) \<Longrightarrow>
   attempt_prediction P risk m features s = (Inl StrFailed, s1)"
  by (simp add: attempt_prediction_def)

lemma attempt_no_match:
  "predict_first risk m features s = (Inl (ValueError (Some msg)), s1) \<Longrightarrow>
   re_search P msg = None \<Longrightarrow>
   attempt_prediction P risk m features s =
     (Inl (HTTPException 500 (ustr ''Prediction error: '' @ msg)), s1)"
  by (simp add: attempt_prediction_def)

lemma attempt_int_fails:
  "predict_first risk m features s = (Inl (ValueError (Some msg)), s1) \<Longrightarrow>
   re_search P msg = Some (g1, g2) \<Longrightarrow> int_of_string P g1 = None \<Longrightarrow>
   attempt_prediction P risk m features s = (Inl IntValueError, s1)"
  by (simp add: attempt_prediction_def)

lemma attempt_not_longer:
  "predict_first risk m features s = (Inl (ValueError (Some msg)), s1) \<Longrightarrow>
   re_search P msg = Some (g1, g2) \<Longrightarrow> int_of_string P g1 = Some n1 \<Longrightarrow>
   n1 \<le> int (length features) \<Longrightarrow>
   attempt_prediction P risk m features s =
     (Inl (HTTPException 500 (ustr ''Prediction error: '' @ msg)), s1)"
  by (simp add: attempt_prediction_def)

lemma attempt_pad_fails:
  "predict_first risk m features s = (Inl (ValueError (Some msg)), s1) \<Longrightarrow>
   re_search P msg = Some (g1, g2) \<Longrightarrow> int_of_string P g1 = Some n1 \<Longrightarrow>
   int (length features) < n1 \<Longrightarrow> pad_to P n1 features = Inl err \<Longrightarrow>
   attempt_prediction P risk m features s = (Inl err, s1)"
  by (simp add: attempt_prediction_def)

lemma attempt_retry_ok:
  "predict_first risk m features s = (Inl (ValueError (Some msg)), s1) \<Longrightarrow>
   re_search P msg = Some (g1, g2) \<Longrightarrow> int_of_string P g1 = Some n1 \<Longrightarrow>
   int (length features) < n1 \<Longrightarrow> pad_to P n1 features = Inr padded \<Longrightarrow>
   predict_first risk m padded s1 = (Inr pred, s2) \<Longrightarrow>
   attempt_prediction P risk m features s = (Inr pred, s2)"
  by (simp add: attempt_prediction_def)

lemma attempt_retry_fails:
  "predict_first risk m features s = (Inl (ValueError (Some msg)), s1) \<Longrightarrow>
   re_search P msg = Some (g1, g2) \<Longrightarrow> int_of_string P g1 = Some n1 \<Longrightarrow>
   int (length features) < n1 \<Longrightarrow> pad_to P n1 features = Inr padded \<Longrightarrow>
   predict_first risk m padded s1 = (Inl e2, s2) \<Longrightarrow>
   attempt_prediction P risk m features s =
     (Inl (http_error ''Prediction error after padding: '' (exc_str e2)), s2)"
  by (simp add: attempt_prediction_def)

text \<open>
  The calls of one attempt: the vector it was given, and after it only the padded vector
  of the retry, which is made only after a \<^verbatim>\<open>ValueError\<close> whose message matches with a
  number above the length of the vector.
\<close>

lemma attempt_calls:
  assumes "attempt_prediction P risk m features s = (r, s')"
  shows "calls s' = calls s @ [(risk, features)] \<or>
         (\<exists>msg g1 g2 n1 s1.
            predict_first risk m features s = (Inl (ValueError (Some msg)), s1) \<and>
            re_search P msg = Some (g1, g2) \<and> int_of_string P g1 = Some n1 \<and>
            int (length features) < n1 \<and>
            calls s' = calls s @
              [(risk, features),
               (risk, features @ replicate (nat (n1 - int (length features))) (Fin 0))])"
proof -
  obtain r1 s1 where p1: "predict_first risk m features s = (r1, s1)"
    by (cases "predict_first risk m features s")
  note c1 = predict_first_calls[OF p1]
  show ?thesis
  proof (cases r1)
    case (Inr pred)
    with p1 assms c1 show ?thesis by (simp add: attempt_prediction_def)
  next
    case (Inl e)
    show ?thesis
    proof (cases e)
      case (OtherException msg)
      with Inl p1 assms c1 show ?thesis by (simp add: attempt_prediction_def)
    next
      case (ValueError sm)
      show ?thesis
      proof (cases sm)
        case None
        with ValueError Inl p1 assms c1 show ?thesis by (simp add: attempt_prediction_def)
      next
        case (Some msg)
        note p1' = p1[unfolded Inl ValueError Some]
        show ?thesis
        proof (cases "re_search P msg")
          case None
          from attempt_no_match[OF p1' None] assms c1 show ?thesis by simp
        next
          case (Some g)
          obtain g1 g2 where g: "re_search P msg = Some (g1, g2)"
            using Some by (cases g) simp
          show ?thesis
          proof (cases "int_of_string P g1")
            case None
            from attempt_int_fails[OF p1' g None] assms c1 show ?thesis by simp
          next
            case (Some n1)
            note n = Some
            show ?thesis
            proof (cases "int (length features) < n1")
              case False
              then have "n1 \<le> int (length features)" by simp
              from attempt_not_longer[OF p1' g n this] assms c1 show ?thesis by simp
            next
              case True
              show ?thesis
              proof (cases "pad_to P n1 features")
                case (Inl err)
                from attempt_pad_fails[OF p1' g n True Inl] assms c1 show ?thesis by simp
              next
                case (Inr padded)
                note pd = pad_to_Inr[OF Inr]
                obtain r2 s2 where p2: "predict_first risk m padded s1 = (r2, s2)"
                  by (cases "predict_first risk m padded s1")
                note c2 = predict_first_calls[OF p2]
                have "s' = s2"
                proof (cases r2)
                  case (Inl e2)
                  from attempt_retry_fails[OF p1' g n True Inr p2[unfolded Inl]] assms
                  show ?thesis by simp
                next
                  case (Inr pred)
                  from attempt_retry_ok[OF p1' g n True \<open>pad_to P n1 features = Inr padded\<close>
                         p2[unfolded Inr]] assms
                  show ?thesis by simp
                qed
                with c1 c2 pd have "calls s' = calls s @
                    [(risk, features),
                     (risk, features @ replicate (nat (n1 - int (length features))) (Fin 0))]"
                  by simp
                with p1' g n True show ?thesis by blast
              qed
            qed
          qed
        qed
      qed
    qed
  qed
qed


subsection \<open>Clamping\<close>

lemma clamp_Fin: "clamp (Fin r) = Fin (max 0 (min 100 r))"
  by (simp add: clamp_def py_min_def py_max_def max_def min_def)

lemma clamp_PosInf: "clamp PosInf = Fin 100"
  by (simp add: clamp_def py_min_def py_max_def)

lemma clamp_NegInf: "clamp NegInf = Fin 0"
  by (simp add: clamp_def py_min_def py_max_def)

text \<open>NaN compares false with everything, so \<^verbatim>\<open>min\<close> keeps 100.0.\<close>

lemma clamp_NaN: "clamp NaN = Fin 100"
  by (simp add: clamp_def py_min_def py_max_def)

lemma clamp_cases:
  "clamp v = (case v of Fin r \<Rightarrow> Fin (max 0 (min 100 r)) | PosInf \<Rightarrow> Fin 100
              | NegInf \<Rightarrow> Fin 0 | NaN \<Rightarrow> Fin 100)"
  by (cases v) (simp_all add: clamp_Fin clamp_PosInf clamp_NegInf clamp_NaN)

lemma clamp_is_score: "is_score (clamp v)"
  by (cases v) (simp_all add: clamp_Fin clamp_PosInf clamp_NegInf clamp_NaN is_score_def)

subsection \<open>One model\<close>

lemma predict_one_no_vector:
  "working_vector P m base = Inl e \<Longrightarrow> predict_one P risk m base s = (Inl e, s)"
  by (simp add: predict_one_def)

lemma predict_one_ok:
  "working_vector P m base = Inr features \<Longrightarrow>
   attempt_prediction P risk m features s = (Inr pred, s') \<Longrightarrow>
   py_float P pred = Some v \<Longrightarrow> predict_one P risk m base s = (Inr (clamp v), s')"
  by (simp add: predict_one_def)

lemma predict_one_non_numeric:
  "working_vector P m base = Inr features \<Longrightarrow>
   attempt_prediction P risk m features s = (Inr pred, s') \<Longrightarrow>
   py_float P pred = None \<Longrightarrow>
   predict_one P risk m base s =
     (Inl (HTTPException 500 (ustr ''Model returned non-numeric prediction for '' @ risk)), s')"
  by (simp add: predict_one_def)

lemma predict_one_attempt_fails:
  "working_vector P m base = Inr features \<Longrightarrow>
   attempt_prediction P risk m features s = (Inl e, s') \<Longrightarrow>
   predict_one P risk m base s = (Inl e, s')"
  by (simp add: predict_one_def)

lemma predict_one_state:
  "working_vector P m base = Inr features \<Longrightarrow>
   snd (predict_one P risk m base s) = snd (attempt_prediction P risk m features s)"
  by (simp add: predict_one_def split: prod.splits sum.splits option.splits)

lemma predict_one_is_score:
  "predict_one P risk m base s = (Inr v, s') \<Longrightarrow> is_score v"
  by (auto simp: predict_one_def clamp_is_score split: prod.splits sum.splits option.splits)

lemma new_calls_append: "calls s' = calls s @ cs \<Longrightarrow> new_calls s s' = cs"
  by (simp add: new_calls_def)

lemma new_calls_same [simp]: "new_calls s s = []"
  by (simp add: new_calls_def)

text \<open>
  The calls made for one model: none when the request ends before the first call; else
  the working vector, and after it only the padded vector of the retry.
\<close>

lemma predict_one_calls:
  "(\<exists>e. working_vector P m base = Inl e \<and> new_calls s (snd (predict_one P risk m base s)) = []) \<or>
   (\<exists>features. working_vector P m base = Inr features \<and>
      (new_calls s (snd (predict_one P risk m base s)) = [(risk, features)] \<or>
       (\<exists>msg g1 g2 n1 s1.
          predict_first risk m features s = (Inl (ValueError (Some msg)), s1) \<and>
          re_search P msg = Some (g1, g2) \<and> int_of_string P g1 = Some n1 \<and>
          int (length features) < n1 \<and>
          new_calls s (snd (predict_one P risk m base s)) =
            [(risk, features),
             (risk, features @ replicate (nat (n1 - int (length features))) (Fin 0))])))"
proof (cases "working_vector P m base")
  case (Inl e)
  then show ?thesis by (simp add: predict_one_no_vector)
next
  case (Inr features)
  obtain r s' where a: "attempt_prediction P risk m features s = (r, s')"
    by (cases "attempt_prediction P risk m features s")
  have st: "snd (predict_one P risk m base s) = s'"
    using a by (simp add: predict_one_state[OF Inr])
  from attempt_calls[OF a] show ?thesis
  proof
    assume "calls s' = calls s @ [(risk, features)]"
    then have "new_calls s s' = [(risk, features)]" by (rule new_calls_append)
    with Inr st show ?thesis by simp
  next
    assume "\<exists>msg g1 g2 n1 s1.
            predict_first risk m features s = (Inl (ValueError (Some msg)), s1) \<and>
            re_search P msg = Some (g1, g2) \<and> int_of_string P g1 = Some n1 \<and>
            int (length features) < n1 \<and>
            calls s' = calls s @
              [(risk, features),
               (risk, features @ replicate (nat (n1 - int (length features))) (Fin 0))]"
    then obtain msg g1 g2 n1 s1 where
      h: "predict_first risk m features s = (Inl (ValueError (Some msg)), s1)"
         "re_search P msg = Some (g1, g2)" "int_of_string P g1 = Some n1"
         "int (length features) < n1" and
      c: "calls s' = calls s @
              [(risk, features),
               (risk, features @ replicate (nat (n1 - int (length features))) (Fin 0))]"
      by blast
    from c have "new_calls s s' =
              [(risk, features),
               (risk, features @ replicate (nat (n1 - int (length features))) (Fin 0))]"
      by (rule new_calls_append)
    with Inr st h show ?thesis by auto
  qed
qed

lemma predict_one_retry_calls:
  assumes "working_vector P m base = Inr features"
    and "predict_first risk m features s = (Inl (ValueError (Some msg)), s1)"
    and "re_search P msg = Some (g1, g2)" and "int_of_string P g1 = Some n1"
    and "int (length features) < n1" and "pad_to P n1 features = Inr padded"
  shows "new_calls s (snd (predict_one P risk m base s)) = [(risk, features), (risk, padded)]"
proof -
  obtain r2 s2 where p2: "predict_first risk m padded s1 = (r2, s2)"
    by (cases "predict_first risk m padded s1")
  have "snd (attempt_prediction P risk m features s) = s2"
  proof (cases r2)
    case (Inl e2)
    from attempt_retry_fails[OF assms(2-6) p2[unfolded Inl]] show ?thesis by simp
  next
    case (Inr pred)
    from attempt_retry_ok[OF assms(2-6) p2[unfolded Inr]] show ?thesis by simp
  qed
  then have "snd (predict_one P risk m base s) = s2"
    by (simp add: predict_one_state[OF assms(1)])
  moreover have "calls s2 = calls s @ [(risk, features), (risk, padded)]"
    using predict_first_calls[OF assms(2)] predict_first_calls[OF p2] by simp
  ultimately show ?thesis by (simp add: new_calls_append)
qed

lemma predict_one_first_call:
  "working_vector P m base = Inr features \<Longrightarrow>
   \<exists>later. new_calls s (snd (predict_one P risk m base s)) = (risk, features) # later \<and>
           length later \<le> 1"
  using predict_one_calls[of P m base s risk] by auto

lemma predict_one_calls_extend:
  "\<exists>cs. calls (snd (predict_one P risk m base s)) = calls s @ cs \<and> length cs \<le> 2"
proof (cases "working_vector P m base")
  case (Inl e)
  then show ?thesis by (simp add: predict_one_no_vector)
next
  case (Inr features)
  obtain r s' where a: "attempt_prediction P risk m features s = (r, s')"
    by (cases "attempt_prediction P risk m features s")
  have "snd (predict_one P risk m base s) = s'"
    using a by (simp add: predict_one_state[OF Inr])
  with attempt_calls[OF a] show ?thesis by auto
qed

subsection \<open>The loop\<close>

lemma predict_loop_append:
  "predict_loop P (pre @ post) base results s =
     (case predict_loop P pre base results s of
        (Inl e, s1) \<Rightarrow> (Inl e, s1)
      | (Inr results1, s1) \<Rightarrow> predict_loop P post base results1 s1)"
  by (induction pre arbitrary: results s) (auto split: prod.splits sum.splits)

lemma predict_loop_dom:
  "predict_loop P models base results s = (Inr results', s') \<Longrightarrow>
   dom results' = dom results \<union> fst ` set models"
proof (induction models arbitrary: results s)
  case Nil
  then show ?case by simp
next
  case (Cons p models)
  obtain risk m where p: "p = (risk, m)" by (cases p)
  from Cons.prems p obtain x s1 where
    rest: "predict_loop P models base (results(risk \<mapsto> x)) s1 = (Inr results', s')"
    by (auto split: prod.splits sum.splits)
  from Cons.IH[OF rest] p show ?case by auto
qed

text \<open>The loop leaves the entries of other keys as they are.\<close>

lemma predict_loop_keeps:
  "predict_loop P models base results s = (Inr results', s') \<Longrightarrow>
   k \<notin> fst ` set models \<Longrightarrow> results' k = results k"
proof (induction models arbitrary: results s)
  case Nil
  then show ?case by simp
next
  case (Cons p models)
  obtain risk m where p: "p = (risk, m)" by (cases p)
  from Cons.prems(1) p obtain x s1 where
    rest: "predict_loop P models base (results(risk \<mapsto> x)) s1 = (Inr results', s')"
    by (auto split: prod.splits sum.splits)
  from Cons.prems(2) p have "k \<noteq> risk" "k \<notin> fst ` set models" by auto
  with Cons.IH[OF rest] show ?case by simp
qed

lemma predict_loop_scores:
  "predict_loop P models base results s = (Inr results', s') \<Longrightarrow>
   (\<And>k v. results k = Some v \<Longrightarrow> is_score v) \<Longrightarrow> results' k = Some v \<Longrightarrow> is_score v"
proof (induction models arbitrary: results s)
  case Nil
  then show ?case by simp
next
  case (Cons p models)
  obtain risk m where p: "p = (risk, m)" by (cases p)
  from Cons.prems(1) p obtain x s1 where
    one: "predict_one P risk m base s = (Inr x, s1)" and
    rest: "predict_loop P models base (results(risk \<mapsto> x)) s1 = (Inr results', s')"
    by (auto split: prod.splits sum.splits)
  have "is_score v'" if "(results(risk \<mapsto> x)) k' = Some v'" for k' v'
    using that Cons.prems(2) predict_one_is_score[OF one] by (auto split: if_splits)
  from Cons.IH[OF rest this Cons.prems(3)] show ?case .
qed

lemma predict_loop_calls_extend:
  "\<exists>cs. calls (snd (predict_loop P models base results s)) = calls s @ cs \<and>
        length cs \<le> 2 * length models"
proof (induction models arbitrary: results s)
  case Nil
  then show ?case by simp
next
  case (Cons p models)
  obtain risk m where p: "p = (risk, m)" by (cases p)
  obtain r s1 where one: "predict_one P risk m base s = (r, s1)"
    by (cases "predict_one P risk m base s")
  from predict_one_calls_extend[of P risk m base s] one obtain cs1 where
    cs1: "calls s1 = calls s @ cs1" "length cs1 \<le> 2" by auto
  show ?case
  proof (cases r)
    case (Inl e)
    with p one cs1 show ?thesis by auto
  next
    case (Inr v)
    from Cons.IH[of "results(risk \<mapsto> v)" s1] obtain cs2 where
      cs2: "calls (snd (predict_loop P models base (results(risk \<mapsto> v)) s1)) = calls s1 @ cs2"
           "length cs2 \<le> 2 * length models" by blast
    have "calls (snd (predict_loop P (p # models) base results s)) = calls s @ (cs1 @ cs2)"
      using p one Inr cs1(1) cs2(1) by simp
    moreover have "length (cs1 @ cs2) \<le> 2 * length (p # models)"
      using cs1(2) cs2(2) by simp
    ultimately show ?thesis by blast
  qed
qed

subsection \<open>Loading, and the base vector\<close>

lemma load_models_keys:
  "load_models fs MODEL_PATHS [] = Inr models \<Longrightarrow>
   map fst models = [ustr ''phishing_risk'', ustr ''weak_password_risk'',
                     ustr ''oversharing_risk'', ustr ''emotional_manipulation_risk'',
                     ustr ''update_ignorance_risk'']"
  by (auto simp: MODEL_PATHS_def split: option.splits)

lemma base_features_valid:
  assumes "valid_input input"
  shows "base_features input =
           Inr [Fin (real_of_int (openness input)), Fin (real_of_int (conscientiousness input)),
                Fin (real_of_int (extraversion input)), Fin (real_of_int (agreeableness input)),
                Fin (real_of_int (neuroticism input))]"
proof -
  have "float_of_int i = Some (Fin (real_of_int i))" if "0 \<le> i" "i \<le> 100" for i
    using that by (intro float_of_int_exact) auto
  with assms show ?thesis by (simp add: base_features_def valid_input_def)
qed

subsection \<open>The examples\<close>

lemma example_base_features: "base_features example_input = Inr example_base"
proof -
  have "valid_input example_input"
    by (simp add: valid_input_def example_input_def)
  from base_features_valid[OF this] show ?thesis
    by (simp add: example_input_def example_base_def)
qed

lemma example_load: "load_models example_files MODEL_PATHS [] = Inr example_models"
  by (simp add: MODEL_PATHS_def example_files_def example_models_def)

lemma example_length: "length example_base = 5"
  by (simp add: example_base_def)

text \<open>\<^verbatim>\<open>float\<close> of four strings, on every platform.\<close>

lemma float_of_string_42: "float_of_string P (ustr ''42'') = Some (Fin 42)"
proof -
  have d: "parse_decimal [52, 50] = Some (42, 0)"
    by (simp add: parse_decimal_def is_ascii_digit_def int_of_digits_def)
  have n: "nearest_double 42 1 = Fin 42"
    using nearest_double_exact(1)[of 42] by simp
  show ?thesis
    by (simp add: float_of_string_def ustr_def strip_ws_def is_ascii_space_def is_ascii_digit_def
                  split_sign_def to_lower_def d n)
qed




lemma int_of_string_digit:
  "int_of_string P (ustr ''3'') = Some 3 \<and> int_of_string P (ustr ''4'') = Some 4 \<and>
   int_of_string P (ustr ''7'') = Some 7 \<and> int_of_string P (ustr ''8'') = Some 8 \<and>
   int_of_string P (ustr ''eight'') = None"
  by (simp add: int_of_string_def ustr_def split_sign_def is_ascii_space_def is_ascii_digit_def
                int_of_digits_def)

lemma int_of_string_huge:
  "int_of_string P (ustr ''100000000000000000000'') = Some 100000000000000000000"
  by (simp add: int_of_string_def ustr_def split_sign_def is_ascii_space_def is_ascii_digit_def
                int_of_digits_def)

lemma re_search_7_5: "re_search P (ustr ''expected 7, got 5'') = Some (ustr ''7'', ustr ''5'')"
  using re_search_examples[of P] by simp

lemma re_search_7_3: "re_search P (ustr ''expected 7, got 3'') = Some (ustr ''7'', ustr ''3'')"
  by (simp add: re_search.simps match_at_def ustr_def is_decimal_def is_ascii_digit_def
                is_colon_or_space_def is_comma_or_space_def)

lemma re_search_huge:
  "re_search P (ustr ''expected 100000000000000000000, got 3'') =
     Some (ustr ''100000000000000000000'', ustr ''3'')"
  by (simp add: re_search.simps match_at_def ustr_def is_decimal_def is_ascii_digit_def
                is_colon_or_space_def is_comma_or_space_def)

lemma example_limits:
  "maxsize example_platform = 9223372036854775807 \<and> max_list example_platform = 4294967296"
  by (simp add: example_platform_def)

lemma constant_model_vector:
  "working_vector P (constant_model Absent Absent v) base = Inr base"
  by (simp add: working_vector_def detect_expected_def constant_model_def reshape_def)

lemma constant_model_attempt:
  "attempt_prediction P risk (constant_model a b v) features s =
     (Inr v, \<lparr>world = Suc (world s), calls = calls s @ [(risk, features)]\<rparr>)"
  by (simp add: attempt_prediction_def predict_first_def constant_model_def)

lemma example_run:
  "predict_risks example_platform example_models example_input start =
     (Inr \<lparr>phishing_risk = Fin 42, weak_password_risk = Fin 100, oversharing_risk = Fin 100,
           emotional_manipulation_risk = Fin 100, update_ignorance_risk = Fin 100\<rparr>,
      \<lparr>world = 6,
       calls =
         [(ustr ''phishing_risk'', [Fin 0, Fin 20, Fin 30]),
          (ustr ''phishing_risk'', [Fin 0, Fin 20, Fin 30, Fin 0, Fin 0, Fin 0, Fin 0]),
          (ustr ''weak_password_risk'', example_base @ [Fin 0, Fin 0, Fin 0]),
          (ustr ''oversharing_risk'', example_base @ [Fin 0, Fin 0, Fin 0]),
          (ustr ''emotional_manipulation_risk'', example_base @ [Fin 0, Fin 0, Fin 0]),
          (ustr ''update_ignorance_risk'', example_base @ [Fin 0, Fin 0, Fin 0])]\<rparr>)"
proof -
  let ?strict = "strict_model (Present (PyInt 3)) 7 ''expected 7, got 3'' (PyStr (ustr ''42''))"
  let ?const = "constant_model Absent (Present (PyInt 8)) (PyFloat (Fin 142.7))"
  note i = int_of_string_digit[of example_platform]
  have ws: "working_vector example_platform ?strict example_base = Inr [Fin 0, Fin 20, Fin 30]"
    by (simp add: working_vector_def detect_expected_def strict_model_def reshape_def
                  slice_to_def example_base_def numeral_3_eq_3)
  have pad7: "pad_to example_platform 7 [Fin 0, Fin 20, Fin 30] =
                Inr [Fin 0, Fin 20, Fin 30, Fin 0, Fin 0, Fin 0, Fin 0]"
    by (simp add: pad_to_def example_limits) (simp add: eval_nat_numeral)
  have strict: "predict_one example_platform (ustr ''phishing_risk'') ?strict example_base s =
      (Inr (Fin 42),
       \<lparr>world = Suc (Suc (world s)),
        calls = calls s @
          [(ustr ''phishing_risk'', [Fin 0, Fin 20, Fin 30]),
           (ustr ''phishing_risk'', [Fin 0, Fin 20, Fin 30, Fin 0, Fin 0, Fin 0, Fin 0])]\<rparr>)"
    for s :: "nat env"
  proof -
    have "attempt_prediction example_platform (ustr ''phishing_risk'') ?strict
            [Fin 0, Fin 20, Fin 30] s =
          (Inr (PyStr (ustr ''42'')),
           \<lparr>world = Suc (Suc (world s)),
            calls = calls s @
              [(ustr ''phishing_risk'', [Fin 0, Fin 20, Fin 30]),
               (ustr ''phishing_risk'', [Fin 0, Fin 20, Fin 30, Fin 0, Fin 0, Fin 0, Fin 0])]\<rparr>)"
      using i
      by (simp add: attempt_prediction_def predict_first_def strict_model_def Let_def
                    re_search_7_3 pad7)
    then show ?thesis
      by (simp add: predict_one_def ws float_of_string_42 clamp_Fin)
  qed
  have wc: "working_vector example_platform ?const example_base =
              Inr (example_base @ [Fin 0, Fin 0, Fin 0])"
    by (simp add: working_vector_def detect_expected_def constant_model_def reshape_def
                  pad_to_def example_limits example_length numeral_3_eq_3)
  have const: "predict_one example_platform risk ?const example_base s =
      (Inr (Fin 100),
       \<lparr>world = Suc (world s),
        calls = calls s @ [(risk, example_base @ [Fin 0, Fin 0, Fin 0])]\<rparr>)"
    for s :: "nat env" and risk
    by (simp add: predict_one_def wc constant_model_attempt clamp_Fin)
  show ?thesis
    by (simp add: predict_risks_def example_base_features example_models_def strict const
                  make_RiskScores_def start_def)
qed

subsection \<open>Which errors come from where\<close>




subsection \<open>Deterministic models\<close>

lemma predict_first_deterministic:
  "deterministic m \<Longrightarrow>
   fst (predict_first risk m features s) = fst (predict_first risk m features s')"
proof -
  assume "deterministic m"
  then have "fst (predict m [features] (world s)) = fst (predict m [features] (world s'))"
    by (simp add: deterministic_def)
  then show ?thesis
    by (cases "predict m [features] (world s)"; cases "predict m [features] (world s')")
       (simp add: predict_first_def Let_def split: sum.splits list.splits)
qed

lemma attempt_deterministic:
  assumes "deterministic m"
  shows "fst (attempt_prediction P risk m features s) =
         fst (attempt_prediction P risk m features s')"
proof -
  obtain r1 s1 where p1: "predict_first risk m features s = (r1, s1)"
    by (cases "predict_first risk m features s")
  obtain r1' s1' where p1': "predict_first risk m features s' = (r1', s1')"
    by (cases "predict_first risk m features s'")
  from predict_first_deterministic[OF assms, of risk features s s'] p1 p1'
  have r: "r1' = r1" by simp
  have retry: "\<exists>q t t'. predict_first risk m v s1 = (q, t) \<and> predict_first risk m v s1' = (q, t')"
    for v
    using predict_first_deterministic[OF assms, of risk v s1 s1']
    by (cases "predict_first risk m v s1"; cases "predict_first risk m v s1'") simp
  show ?thesis
  proof (cases r1)
    case (Inr pred)
    with p1 p1' r show ?thesis by (simp add: attempt_prediction_def)
  next
    case (Inl e)
    show ?thesis
    proof (cases e)
      case (OtherException msg)
      with Inl p1 p1' r show ?thesis by (simp add: attempt_prediction_def)
    next
      case (ValueError mo)
      show ?thesis
      proof (cases mo)
        case None
        with ValueError Inl p1 p1' r show ?thesis by (simp add: attempt_prediction_def)
      next
        case (Some msg)
        note first = Some ValueError Inl p1 p1' r
        show ?thesis
        proof (cases "re_search P msg")
          case None
          with first show ?thesis by (simp add: attempt_prediction_def)
        next
          case g: (Some g)
          obtain g1 g2 where g12: "g = (g1, g2)" by (cases g)
          show ?thesis
          proof (cases "int_of_string P g1")
            case None
            with first g g12 show ?thesis by (simp add: attempt_prediction_def)
          next
            case n: (Some n1)
            show ?thesis
            proof (cases "int (length features) < n1")
              case False
              with first g g12 n show ?thesis by (simp add: attempt_prediction_def)
            next
              case True
              show ?thesis
              proof (cases "pad_to P n1 features")
                case (Inl err)
                with first g g12 n True show ?thesis by (simp add: attempt_prediction_def)
              next
                case (Inr padded)
                from retry[of padded] obtain q t t' where
                  "predict_first risk m padded s1 = (q, t)"
                  "predict_first risk m padded s1' = (q, t')" by blast
                with first g g12 n True Inr show ?thesis
                  by (cases q) (simp_all add: attempt_prediction_def)
              qed
            qed
          qed
        qed
      qed
    qed
  qed
qed

lemma predict_one_deterministic:
  assumes "deterministic m"
  shows "fst (predict_one P risk m base s) = fst (predict_one P risk m base s')"
proof (cases "working_vector P m base")
  case (Inl e)
  then show ?thesis by (simp add: predict_one_def)
next
  case (Inr features)
  with attempt_deterministic[OF assms, of P risk features s s'] show ?thesis
    by (cases "attempt_prediction P risk m features s";
        cases "attempt_prediction P risk m features s'")
       (auto simp: predict_one_def split: sum.splits option.splits)
qed

lemma predict_loop_deterministic:
  "\<forall>p \<in> set models. deterministic (snd p) \<Longrightarrow>
   fst (predict_loop P models base results s) = fst (predict_loop P models base results s')"
proof (induction models arbitrary: results s s')
  case Nil
  then show ?case by simp
next
  case (Cons p models)
  obtain risk m where p: "p = (risk, m)" by (cases p)
  from Cons.prems p have d: "deterministic m" by simp
  obtain r s1 where one: "predict_one P risk m base s = (r, s1)"
    by (cases "predict_one P risk m base s")
  obtain r' s1' where one': "predict_one P risk m base s' = (r', s1')"
    by (cases "predict_one P risk m base s'")
  from predict_one_deterministic[OF d, of P risk base s s'] one one' have r: "r' = r" by simp
  show ?case
  proof (cases r)
    case (Inl e)
    with p one one' r show ?thesis by simp
  next
    case (Inr v)
    from Cons.prems have "\<forall>p \<in> set models. deterministic (snd p)" by simp
    then have "fst (predict_loop P models base (results(risk \<mapsto> v)) s1) =
          fst (predict_loop P models base (results(risk \<mapsto> v)) s1')" by (rule Cons.IH)
    with p one one' r Inr show ?thesis by (simp del: fun_upd_apply)
  qed
qed

text \<open>
  A model whose prediction depends on the outside state gives two different answers to
  the same request.
\<close>

lemma drifting_model_differs:
  "fst (predict_risks example_platform (map (\<lambda>p. (fst p, drifting_model)) MODEL_PATHS)
          example_input start) \<noteq>
   fst (predict_risks example_platform (map (\<lambda>p. (fst p, drifting_model)) MODEL_PATHS)
          example_input
          (snd (predict_risks example_platform (map (\<lambda>p. (fst p, drifting_model)) MODEL_PATHS)
                 example_input start)))"
proof -
  let ?P = example_platform
  have 1: "predict_one ?P risk drifting_model example_base s =
             (Inr (Fin (real (world s))),
              \<lparr>world = Suc (world s), calls = calls s @ [(risk, example_base)]\<rparr>)"
    if "world s \<le> 100" for s :: "nat env" and risk
    using that float_of_int_exact[of "int (world s)"]
    by (simp add: predict_one_def working_vector_def attempt_prediction_def predict_first_def
                  drifting_model_def detect_expected_def reshape_def clamp_Fin)
  have 2: "phishing_risk (projr (fst (predict_risks ?P
             (map (\<lambda>p. (fst p, drifting_model)) MODEL_PATHS) example_input s))) =
           Fin (real (world s)) \<and>
           world (snd (predict_risks ?P
             (map (\<lambda>p. (fst p, drifting_model)) MODEL_PATHS) example_input s)) = world s + 5"
    if "world s \<le> 50" for s :: "nat env"
    using that
    by (simp add: predict_risks_def example_base_features MODEL_PATHS_def 1
                  make_RiskScores_def)
  from 2[of start] 2[of "snd (predict_risks ?P (map (\<lambda>p. (fst p, drifting_model)) MODEL_PATHS)
                 example_input start)"]
  show ?thesis by (auto simp: start_def)
qed

section \<open>The claims\<close>

text \<open>
  C1. With the models loaded at start-up and a valid request: a run that returns scores
  returns them under the five fixed risk names, exactly these, and every score is a float
  in the closed interval from 0 to 100; and a run in which the loop gets a score from
  every model does return scores.
\<close>

theorem scores_complete_and_in_range:
  assumes "load_models fs MODEL_PATHS [] = Inr models" and "valid_input input"
  shows "(\<forall>scores s'. predict_risks P models input s = (Inr scores, s') \<longrightarrow>
           is_score (phishing_risk scores) \<and> is_score (weak_password_risk scores) \<and>
           is_score (oversharing_risk scores) \<and> is_score (emotional_manipulation_risk scores) \<and>
           is_score (update_ignorance_risk scores) \<and>
           (\<exists>base results.
              base_features input = Inr base \<and>
              predict_loop P models base Map.empty s = (Inr results, s') \<and>
              dom results = {ustr ''phishing_risk'', ustr ''weak_password_risk'',
                             ustr ''oversharing_risk'', ustr ''emotional_manipulation_risk'',
                             ustr ''update_ignorance_risk''} \<and>
              make_RiskScores results = Inr scores)) \<and>
         (\<exists>base. base_features input = Inr base \<and>
            (\<forall>results s'. predict_loop P models base Map.empty s = (Inr results, s') \<longrightarrow>
               (\<exists>scores. predict_risks P models input s = (Inr scores, s'))))"
proof -
  from base_features_valid[OF assms(2)] obtain base where b: "base_features input = Inr base"
    by blast
  note keys = load_models_keys[OF assms(1)]
  have names: "fst ` set models =
                 {ustr ''phishing_risk'', ustr ''weak_password_risk'', ustr ''oversharing_risk'',
                  ustr ''emotional_manipulation_risk'', ustr ''update_ignorance_risk''}"
  proof -
    have "fst ` set models = set (map fst models)" by simp
    also have "\<dots> = {ustr ''phishing_risk'', ustr ''weak_password_risk'',
                  ustr ''oversharing_risk'', ustr ''emotional_manipulation_risk'',
                  ustr ''update_ignorance_risk''}"
      unfolding keys by auto
    finally show ?thesis .
  qed
  have full: "dom results = {ustr ''phishing_risk'', ustr ''weak_password_risk'',
                  ustr ''oversharing_risk'', ustr ''emotional_manipulation_risk'',
                  ustr ''update_ignorance_risk''} \<and>
              (\<exists>scores. make_RiskScores results = Inr scores \<and>
                 is_score (phishing_risk scores) \<and> is_score (weak_password_risk scores) \<and>
                 is_score (oversharing_risk scores) \<and>
                 is_score (emotional_manipulation_risk scores) \<and>
                 is_score (update_ignorance_risk scores))"
    if lr: "predict_loop P models base Map.empty s = (Inr results, t)" for results t
  proof -
    from predict_loop_dom[OF lr] names have d: "dom results =
        {ustr ''phishing_risk'', ustr ''weak_password_risk'', ustr ''oversharing_risk'',
         ustr ''emotional_manipulation_risk'', ustr ''update_ignorance_risk''}" by simp
    have sc: "is_score v" if "results k = Some v" for k v
      using predict_loop_scores[OF lr _ that] by simp
    from d obtain v1 v2 v3 v4 v5 where vs:
      "results (ustr ''phishing_risk'') = Some v1"
      "results (ustr ''weak_password_risk'') = Some v2"
      "results (ustr ''oversharing_risk'') = Some v3"
      "results (ustr ''emotional_manipulation_risk'') = Some v4"
      "results (ustr ''update_ignorance_risk'') = Some v5"
      by (metis domD insertCI)
    have mk: "make_RiskScores results =
                Inr \<lparr>phishing_risk = v1, weak_password_risk = v2, oversharing_risk = v3,
                     emotional_manipulation_risk = v4, update_ignorance_risk = v5\<rparr>"
      by (simp add: make_RiskScores_def vs)
    show ?thesis
      using d mk sc[OF vs(1)] sc[OF vs(2)] sc[OF vs(3)] sc[OF vs(4)] sc[OF vs(5)] by simp
  qed
  have run: "predict_risks P models input s = (make_RiskScores results, t)"
    if "predict_loop P models base Map.empty s = (Inr results, t)" for results t
    using b that by (simp add: predict_risks_def)
  have 1: "is_score (phishing_risk scores) \<and> is_score (weak_password_risk scores) \<and>
           is_score (oversharing_risk scores) \<and> is_score (emotional_manipulation_risk scores) \<and>
           is_score (update_ignorance_risk scores) \<and>
           (\<exists>base results.
              base_features input = Inr base \<and>
              predict_loop P models base Map.empty s = (Inr results, s') \<and>
              dom results = {ustr ''phishing_risk'', ustr ''weak_password_risk'',
                             ustr ''oversharing_risk'', ustr ''emotional_manipulation_risk'',
                             ustr ''update_ignorance_risk''} \<and>
              make_RiskScores results = Inr scores)"
    if ok: "predict_risks P models input s = (Inr scores, s')" for scores s'
  proof -
    obtain r t where l: "predict_loop P models base Map.empty s = (r, t)"
      by (cases "predict_loop P models base Map.empty s")
    show ?thesis
    proof (cases r)
      case (Inl e)
      with l b ok show ?thesis by (simp add: predict_risks_def)
    next
      case (Inr results)
      with l have lr: "predict_loop P models base Map.empty s = (Inr results, t)" by simp
      from run[OF lr] ok have "make_RiskScores results = Inr scores" "t = s'" by simp_all
      with full[OF lr] lr b show ?thesis by auto
    qed
  qed
  have 2: "\<exists>scores. predict_risks P models input s = (Inr scores, s')"
    if lr: "predict_loop P models base Map.empty s = (Inr results, s')" for results s'
    using full[OF lr] run[OF lr] by auto
  from 1 2 b show ?thesis by blast
qed

theorem scores_complete_and_in_range_witness:
  "predict_risks example_platform example_models example_input start =
     (Inr \<lparr>phishing_risk = Fin 42, weak_password_risk = Fin 100, oversharing_risk = Fin 100,
           emotional_manipulation_risk = Fin 100, update_ignorance_risk = Fin 100\<rparr>,
      snd (predict_risks example_platform example_models example_input start)) \<and>
   is_score (Fin 42) \<and> is_score (Fin 100)"
proof -
  have v: "valid_input example_input"
    by (simp add: valid_input_def example_input_def)
  from scores_complete_and_in_range[OF example_load v, of example_platform start] example_run
  show ?thesis by simp
qed

text \<open>
  C5. The expected width of a model is read from two attributes in priority order: the
  first one the model has decides, through \<^verbatim>\<open>int\<close>. When the model has neither, or
  \<^verbatim>\<open>int\<close> of the one found raises (\<open>py_int\<close> is \<open>None\<close>), the width is unknown, and the
  first call to \<^verbatim>\<open>predict\<close> gets the base vector unchanged.
\<close>

theorem expected_width_by_introspection:
  "(\<forall>v. n_features_in m = Present v \<longrightarrow> detect_expected P m = Inr (py_int P v)) \<and>
   (\<forall>v. n_features_in m = Absent \<and> n_features m = Present v \<longrightarrow>
      detect_expected P m = Inr (py_int P v)) \<and>
   (n_features_in m = Absent \<and> n_features m = Absent \<longrightarrow> detect_expected P m = Inr None) \<and>
   (detect_expected P m = Inr None \<longrightarrow>
      (\<exists>later. new_calls s (snd (predict_one P risk m base s)) = (risk, base) # later))"
proof -
  have "\<exists>later. new_calls s (snd (predict_one P risk m base s)) = (risk, base) # later"
    if "detect_expected P m = Inr None"
  proof -
    from that have "working_vector P m base = Inr base"
      by (simp add: working_vector_def reshape_def)
    from predict_one_first_call[OF this, of s risk] show ?thesis by blast
  qed
  then show ?thesis by (simp add: detect_expected_def)
qed

theorem expected_width_by_introspection_witness:
  "detect_expected example_platform
     (constant_model (Present (PyStr (ustr ''8''))) (Present (PyInt 3)) (PyInt 1)) =
     Inr (Some 8) \<and>
   detect_expected example_platform (constant_model Absent (Present (PyInt 3)) (PyInt 1)) =
     Inr (Some 3) \<and>
   detect_expected example_platform (constant_model Absent Absent (PyInt 1)) = Inr None \<and>
   detect_expected example_platform
     (constant_model (Present (PyStr (ustr ''eight''))) (Present (PyInt 3)) (PyInt 1)) =
     Inr None \<and>
   new_calls start (snd (predict_one example_platform (ustr ''phishing_risk'')
       (constant_model (Present (PyStr (ustr ''eight''))) (Present (PyInt 3)) (PyInt 1))
       example_base start)) =
     [(ustr ''phishing_risk'', example_base)]"
proof -
  let ?m = "constant_model (Present (PyStr (ustr ''eight''))) (Present (PyInt 3)) (PyInt 1)"
  note i = int_of_string_digit[of example_platform]
  have w: "working_vector example_platform ?m example_base = Inr example_base"
    using i by (simp add: working_vector_def detect_expected_def constant_model_def reshape_def)
  have n: "new_calls start (snd (predict_one example_platform (ustr ''phishing_risk'') ?m
             example_base start)) = [(ustr ''phishing_risk'', example_base)]"
    using float_of_int_exact[of 1]
    by (simp add: predict_one_def w constant_model_attempt new_calls_def start_def)
  from expected_width_by_introspection[of
         "constant_model (Present (PyStr (ustr ''8''))) (Present (PyInt 3)) (PyInt 1)"
         example_platform]
       expected_width_by_introspection[of
         "constant_model Absent (Present (PyInt 3)) (PyInt 1)" example_platform]
       expected_width_by_introspection[of "constant_model Absent Absent (PyInt 1)" example_platform]
       expected_width_by_introspection[of ?m example_platform]
       i n
  show ?thesis by (simp add: constant_model_def)
qed

text \<open>
  C6. For every model and every raw prediction that \<^verbatim>\<open>float\<close> accepts, the score of the
  model is the coerced value clamped to the closed interval from 0 to 100: a number below
  0 (such as -15) gives 0.0, a number above 100 (such as 142.7) gives 100.0, a number in
  between is kept, the infinities give 100.0 and 0.0, and NaN, which compares false with
  everything, gives 100.0. The loop stores this score under the model's risk name, and a
  run that goes on to the end still has it there.
\<close>

theorem recorded_score_is_clamped:
  assumes "working_vector P m base = Inr features"
    and "attempt_prediction P risk m features s = (Inr raw, s1)"
    and "py_float P raw = Some v"
  shows "predict_one P risk m base s =
           (Inr (case v of Fin r \<Rightarrow> Fin (max 0 (min 100 r)) | PosInf \<Rightarrow> Fin 100
                 | NegInf \<Rightarrow> Fin 0 | NaN \<Rightarrow> Fin 100), s1) \<and>
         (\<forall>post results results' s'.
            risk \<notin> fst ` set post \<and>
            predict_loop P ((risk, m) # post) base results s = (Inr results', s') \<longrightarrow>
            results' risk =
              Some (case v of Fin r \<Rightarrow> Fin (max 0 (min 100 r)) | PosInf \<Rightarrow> Fin 100
                    | NegInf \<Rightarrow> Fin 0 | NaN \<Rightarrow> Fin 100))"
proof -
  have one: "predict_one P risk m base s = (Inr (clamp v), s1)"
    using assms by (rule predict_one_ok)
  have loop: "results' risk = Some (clamp v)"
    if "risk \<notin> fst ` set post"
       "predict_loop P ((risk, m) # post) base results s = (Inr results', s')"
    for post results results' s'
  proof -
    from that(2) one
    have "predict_loop P post base (results(risk \<mapsto> clamp v)) s1 = (Inr results', s')"
      by simp
    from predict_loop_keeps[OF this that(1)] show ?thesis by simp
  qed
  from one loop show ?thesis unfolding clamp_cases by blast
qed

theorem recorded_score_is_clamped_witness:
  "fst (predict_one example_platform (ustr ''phishing_risk'')
          (constant_model Absent Absent (PyInt (- 15))) example_base start) = Inr (Fin 0) \<and>
   fst (predict_one example_platform (ustr ''phishing_risk'')
          (constant_model Absent Absent (PyFloat (Fin 142.7))) example_base start) =
     Inr (Fin 100) \<and>
   fst (predict_one example_platform (ustr ''phishing_risk'')
          (constant_model Absent Absent (PyFloat (Fin 37.5))) example_base start) =
     Inr (Fin 37.5) \<and>
   fst (predict_one example_platform (ustr ''phishing_risk'')
          (constant_model Absent Absent (PyFloat NaN)) example_base start) = Inr (Fin 100) \<and>
   fst (predict_loop example_platform
          [(ustr ''phishing_risk'', constant_model Absent Absent (PyInt (- 15))),
           (ustr ''weak_password_risk'', constant_model Absent Absent (PyFloat (Fin 142.7)))]
          example_base Map.empty start) =
     Inr [ustr ''phishing_risk'' \<mapsto> Fin 0, ustr ''weak_password_risk'' \<mapsto> Fin 100]"
proof -
  let ?s1 = "\<lparr>world = 1, calls = [(ustr ''phishing_risk'', example_base)]\<rparr>"
  have a: "attempt_prediction example_platform (ustr ''phishing_risk'')
             (constant_model Absent Absent v) example_base start = (Inr v, ?s1)" for v
    by (simp add: constant_model_attempt start_def)
  note t = recorded_score_is_clamped[OF constant_model_vector a, THEN conjunct1]
  have f: "py_float example_platform (PyInt (- 15)) = Some (Fin (- 15))"
    using float_of_int_exact[of "- 15"] by simp
  have 1: "predict_one example_platform (ustr ''phishing_risk'')
          (constant_model Absent Absent (PyInt (- 15))) example_base start = (Inr (Fin 0), ?s1)"
    using t[OF f] by simp
  have 2: "predict_one example_platform (ustr ''phishing_risk'')
          (constant_model Absent Absent (PyFloat (Fin 142.7))) example_base start =
          (Inr (Fin 100), ?s1)"
    using t[of "PyFloat (Fin 142.7)" "Fin 142.7"] by simp
  have 3: "predict_one example_platform (ustr ''phishing_risk'')
          (constant_model Absent Absent (PyFloat (Fin 37.5))) example_base start =
          (Inr (Fin 37.5), ?s1)"
    using t[of "PyFloat (Fin 37.5)" "Fin 37.5"] by simp
  have 4: "predict_one example_platform (ustr ''phishing_risk'')
          (constant_model Absent Absent (PyFloat NaN)) example_base start = (Inr (Fin 100), ?s1)"
    using t[of "PyFloat NaN" NaN] by simp
  have w: "predict_one example_platform risk (constant_model Absent Absent (PyFloat (Fin r)))
             example_base t =
           (Inr (Fin (max 0 (min 100 r))),
            \<lparr>world = Suc (world t), calls = calls t @ [(risk, example_base)]\<rparr>)"
    for risk r and t :: "nat env"
    by (simp add: predict_one_def constant_model_vector constant_model_attempt clamp_Fin)
  have 5: "predict_loop example_platform
          [(ustr ''phishing_risk'', constant_model Absent Absent (PyInt (- 15))),
           (ustr ''weak_password_risk'', constant_model Absent Absent (PyFloat (Fin 142.7)))]
          example_base Map.empty start =
          (Inr [ustr ''phishing_risk'' \<mapsto> Fin 0, ustr ''weak_password_risk'' \<mapsto> Fin 100],
           \<lparr>world = 2, calls = [(ustr ''phishing_risk'', example_base),
                                (ustr ''weak_password_risk'', example_base)]\<rparr>)"
    by (simp add: 1 w)
  from 1 2 3 4 5 show ?thesis by simp
qed

text \<open>
  C2 (as amended). For every model whose expected width \<open>w\<close> is known, not negative, and
  small enough for a vector of \<open>w\<close> features to be built (\<open>w - 5\<close> is at most
  \<^verbatim>\<open>sys.maxsize\<close> and the list fits in memory), the first call to \<^verbatim>\<open>predict\<close> gets: for
  \<open>w > 5\<close> the five input features followed by \<open>w - 5\<close> zeros; for \<open>w < 5\<close> the first
  \<open>w\<close> of the five features; for \<open>w = 5\<close> the five features unchanged.
\<close>

theorem width_reconciliation:
  assumes "detect_expected P m = Inr (Some w)" and "0 \<le> w" and "length base = 5"
    and "w - 5 \<le> maxsize P" and "w \<le> max_list P"
  shows "\<exists>later. new_calls s (snd (predict_one P risk m base s)) =
           (risk, if 5 < w then base @ replicate (nat (w - 5)) (Fin 0)
                  else if w < 5 then take (nat w) base
                  else base) # later"
proof -
  have "working_vector P m base =
          Inr (if 5 < w then base @ replicate (nat (w - 5)) (Fin 0)
               else if w < 5 then take (nat w) base else base)"
    using assms by (simp add: working_vector_def reshape_def pad_to_def slice_to_def)
  from predict_one_first_call[OF this, of s risk] show ?thesis by blast
qed

theorem width_reconciliation_witness:
  "new_calls start (snd (predict_one example_platform (ustr ''phishing_risk'')
      (constant_model (Present (PyInt 8)) Absent (PyInt 1)) example_base start)) =
     [(ustr ''phishing_risk'', [Fin 0, Fin 20, Fin 30, Fin 40, Fin 100, Fin 0, Fin 0, Fin 0])] \<and>
   new_calls start (snd (predict_one example_platform (ustr ''phishing_risk'')
      (constant_model (Present (PyInt 3)) Absent (PyInt 1)) example_base start)) =
     [(ustr ''phishing_risk'', [Fin 0, Fin 20, Fin 30])] \<and>
   new_calls start (snd (predict_one example_platform (ustr ''phishing_risk'')
      (constant_model (Present (PyInt 5)) Absent (PyInt 1)) example_base start)) =
     [(ustr ''phishing_risk'', [Fin 0, Fin 20, Fin 30, Fin 40, Fin 100])]"
proof -
  have d: "detect_expected example_platform (constant_model (Present (PyInt k)) Absent (PyInt 1)) =
             Inr (Some k)" for k
    by (simp add: detect_expected_def constant_model_def)
  note l = example_length
  have w35: "working_vector example_platform
              (constant_model (Present (PyInt 3)) Absent (PyInt 1)) example_base =
            Inr [Fin 0, Fin 20, Fin 30] \<and>
            working_vector example_platform
              (constant_model (Present (PyInt 5)) Absent (PyInt 1)) example_base =
            Inr example_base"
    by (simp add: working_vector_def d reshape_def slice_to_def l)
       (simp add: example_base_def numeral_3_eq_3)
  have one: "length (new_calls start (snd (predict_one example_platform (ustr ''phishing_risk'')
      (constant_model (Present (PyInt 3)) Absent (PyInt 1)) example_base start))) = 1 \<and>
      length (new_calls start (snd (predict_one example_platform (ustr ''phishing_risk'')
      (constant_model (Present (PyInt 5)) Absent (PyInt 1)) example_base start))) = 1"
    using float_of_int_exact[of 1]
    by (simp add: predict_one_def w35 constant_model_attempt start_def new_calls_def)
  have w8: "working_vector example_platform
              (constant_model (Present (PyInt 8)) Absent (PyInt 1)) example_base =
            Inr (example_base @ [Fin 0, Fin 0, Fin 0])"
    by (simp add: working_vector_def d reshape_def pad_to_def example_limits l numeral_3_eq_3)
  have one8: "length (new_calls start (snd (predict_one example_platform (ustr ''phishing_risk'')
      (constant_model (Present (PyInt 8)) Absent (PyInt 1)) example_base start))) = 1"
    using float_of_int_exact[of 1]
    by (simp add: predict_one_def w8 constant_model_attempt start_def new_calls_def)
  have three: "replicate (nat 3) (Fin 0) = [Fin 0, Fin 0, Fin 0]"
    by (simp add: numeral_3_eq_3)
  from width_reconciliation[OF d _ l, of 8 start "ustr ''phishing_risk''"]
       width_reconciliation[OF d _ l, of 3 start "ustr ''phishing_risk''"]
       width_reconciliation[OF d _ l, of 5 start "ustr ''phishing_risk''"]
       one8 one
  show ?thesis by (auto simp: example_base_def three numeral_3_eq_3 example_limits)
qed

text \<open>
  The claim as it was stated covers every known width. A negative one goes through the
  slice \<^verbatim>\<open>features[:expected]\<close>, which counts from the end: with \<^verbatim>\<open>n_features_in_ = -2\<close>
  the model gets three features. A width of \<open>10 ^ 20\<close> is above \<^verbatim>\<open>sys.maxsize\<close>: the
  product \<^verbatim>\<open>[0.0] * (expected - len(features))\<close> raises \<^verbatim>\<open>OverflowError\<close> outside every
  \<^verbatim>\<open>try\<close>, and the model is not called at all.
\<close>

theorem width_out_of_range_counterexample:
  "detect_expected example_platform (constant_model (Present (PyInt (- 2))) Absent (PyInt 1)) =
     Inr (Some (- 2)) \<and>
   new_calls start (snd (predict_one example_platform (ustr ''phishing_risk'')
      (constant_model (Present (PyInt (- 2))) Absent (PyInt 1)) example_base start)) =
     [(ustr ''phishing_risk'', [Fin 0, Fin 20, Fin 30])] \<and>
   take (nat (- 2)) example_base = [] \<and>
   detect_expected example_platform
      (constant_model (Present (PyInt 100000000000000000000)) Absent (PyInt 1)) =
     Inr (Some 100000000000000000000) \<and>
   predict_one example_platform (ustr ''phishing_risk'')
      (constant_model (Present (PyInt 100000000000000000000)) Absent (PyInt 1))
      example_base start = (Inl IndexOverflow, start)"
proof -
  have d: "detect_expected example_platform (constant_model (Present (PyInt k)) Absent (PyInt 1)) =
             Inr (Some k)" for k
    by (simp add: detect_expected_def constant_model_def)
  have w: "working_vector example_platform
             (constant_model (Present (PyInt (- 2))) Absent (PyInt 1)) example_base =
           Inr [Fin 0, Fin 20, Fin 30]"
    by (simp add: working_vector_def d reshape_def slice_to_def example_base_def numeral_3_eq_3)
  have n: "new_calls start (snd (predict_one example_platform (ustr ''phishing_risk'')
      (constant_model (Present (PyInt (- 2))) Absent (PyInt 1)) example_base start)) =
     [(ustr ''phishing_risk'', [Fin 0, Fin 20, Fin 30])]"
    using float_of_int_exact[of 1]
    by (simp add: predict_one_def w constant_model_attempt start_def new_calls_def)
  have h: "working_vector example_platform
             (constant_model (Present (PyInt 100000000000000000000)) Absent (PyInt 1))
             example_base = Inl IndexOverflow"
    by (simp add: working_vector_def d reshape_def pad_to_def example_limits example_length)
  from d[of "- 2"] d[of 100000000000000000000] n predict_one_no_vector[OF h] show ?thesis
    by simp
qed

text \<open>
  C9 (as amended). In the shape-mismatch fallback the padding starts from the working
  vector. When introspection has cut the vector to its first \<open>w < 5\<close> features (an expected
  width below 5, a negative one counting from the end) and the \<^verbatim>\<open>ValueError\<close> of the
  first call reports an expected width \<open>N1 > w\<close> that \<^verbatim>\<open>int\<close> accepts and that is small
  enough for a vector of \<open>N1\<close> features to be built, exactly two calls are made: the first
  with these \<open>w\<close> features, the retry with the same \<open>w\<close> features followed by \<open>N1 - w\<close>
  zeros. The features that were cut do not come back.
\<close>

theorem retry_pads_the_truncated_vector:
  assumes "detect_expected P m = Inr (Some e)" and "e < 5" and "length base = 5"
    and "predict_first risk m (slice_to base e) s = (Inl (ValueError (Some msg)), s1)"
    and "re_search P msg = Some (g1, g2)" and "int_of_string P g1 = Some n1"
    and "int (length (slice_to base e)) < n1"
    and "n1 - int (length (slice_to base e)) \<le> maxsize P" and "n1 \<le> max_list P"
  shows "\<exists>w<5. slice_to base e = take w base \<and> length (take w base) = w \<and>
           new_calls s (snd (predict_one P risk m base s)) =
             [(risk, take w base), (risk, take w base @ replicate (nat (n1 - int w)) (Fin 0))]"
proof -
  define w where "w = length (slice_to base e)"
  have lt: "w < 5" using assms(2,3) by (auto simp: w_def slice_to_def)
  have "take (length (take n base)) base = take n base" for n
    by (cases "n \<le> length base") (simp_all add: min_def)
  then have tk: "slice_to base e = take w base"
    by (simp add: w_def slice_to_def del: length_take)
  have len: "length (take w base) = w"
    using lt assms(3) by simp
  have wv: "working_vector P m base = Inr (slice_to base e)"
    using assms(1-3) by (simp add: working_vector_def reshape_def)
  from pad_to_fits[OF assms(8,9)]
  have pad: "pad_to P n1 (slice_to base e) =
               Inr (slice_to base e @ replicate (nat (n1 - int (length (slice_to base e)))) (Fin 0))" .
  from predict_one_retry_calls[OF wv assms(4,5,6,7) pad]
  have "new_calls s (snd (predict_one P risk m base s)) =
          [(risk, take w base), (risk, take w base @ replicate (nat (n1 - int w)) (Fin 0))]"
    unfolding w_def[symmetric] unfolding tk .
  with lt tk len show ?thesis by blast
qed

theorem retry_pads_the_truncated_vector_witness:
  "new_calls start (snd (predict_one example_platform (ustr ''phishing_risk'')
      (strict_model (Present (PyInt 3)) 7 ''expected 7, got 3'' (PyStr (ustr ''42'')))
      example_base start)) =
     [(ustr ''phishing_risk'', [Fin 0, Fin 20, Fin 30]),
      (ustr ''phishing_risk'', [Fin 0, Fin 20, Fin 30, Fin 0, Fin 0, Fin 0, Fin 0])] \<and>
   new_calls start (snd (predict_one example_platform (ustr ''phishing_risk'')
      (strict_model (Present (PyInt (- 2))) 7 ''expected 7, got 3'' (PyStr (ustr ''42'')))
      example_base start)) =
     [(ustr ''phishing_risk'', [Fin 0, Fin 20, Fin 30]),
      (ustr ''phishing_risk'', [Fin 0, Fin 20, Fin 30, Fin 0, Fin 0, Fin 0, Fin 0])]"
proof -
  let ?m = "\<lambda>k. strict_model (Present (PyInt k)) 7 ''expected 7, got 3'' (PyStr (ustr ''42''))"
  have d: "detect_expected example_platform (?m k) = Inr (Some k)" for k
    by (simp add: detect_expected_def strict_model_def)
  note l = example_length
  have s3: "slice_to example_base 3 = [Fin 0, Fin 20, Fin 30]"
    by (simp add: slice_to_def example_base_def numeral_3_eq_3)
  have s2: "slice_to example_base (- 2) = [Fin 0, Fin 20, Fin 30]"
    by (simp add: slice_to_def example_base_def numeral_3_eq_3)
  have p: "predict_first (ustr ''phishing_risk'') (?m k) [Fin 0, Fin 20, Fin 30] start =
             (Inl (ValueError (Some (ustr ''expected 7, got 3''))),
              \<lparr>world = 1, calls = [(ustr ''phishing_risk'', [Fin 0, Fin 20, Fin 30])]\<rparr>)" for k
    by (simp add: predict_first_def strict_model_def start_def)
  note g = re_search_7_3[of example_platform]
  have n: "int_of_string example_platform (ustr ''7'') = Some 7"
    using int_of_string_digit[of example_platform] by simp
  have four: "replicate 4 (Fin 0) = [Fin 0, Fin 0, Fin 0, Fin 0]"
    by (simp add: eval_nat_numeral)
  have t: "w = 3" if "[Fin 0, Fin 20, Fin 30] = take w example_base"
                    "length (take w example_base) = w" for w
  proof -
    from that(1) have "length (take w example_base) = length [Fin 0, Fin 20, Fin 30]"
      by (rule arg_cong[OF sym])
    with that(2) show ?thesis by simp
  qed
  have fin: "take 3 example_base @ replicate (nat (7 - int 3)) (Fin 0) =
               [Fin 0, Fin 20, Fin 30, Fin 0, Fin 0, Fin 0, Fin 0]"
    by (simp add: example_base_def four numeral_3_eq_3)
  from retry_pads_the_truncated_vector[OF d _ l p[unfolded s3[symmetric]] g n]
  obtain w where a0: "slice_to example_base 3 = take w example_base"
      "length (take w example_base) = w"
      "new_calls start (snd (predict_one example_platform (ustr ''phishing_risk'') (?m 3)
         example_base start)) =
       [(ustr ''phishing_risk'', take w example_base),
        (ustr ''phishing_risk'', take w example_base @ replicate (nat (7 - int w)) (Fin 0))]"
    by (auto simp: s3 example_limits simp del: length_take)
  from t[OF a0(1)[unfolded s3] a0(2)] have "w = 3" .
  with a0(3) fin
  have a: "new_calls start (snd (predict_one example_platform (ustr ''phishing_risk'') (?m 3)
             example_base start)) =
     [(ustr ''phishing_risk'', [Fin 0, Fin 20, Fin 30]),
      (ustr ''phishing_risk'', [Fin 0, Fin 20, Fin 30, Fin 0, Fin 0, Fin 0, Fin 0])]"
    by (simp add: example_base_def numeral_3_eq_3)
  from retry_pads_the_truncated_vector[OF d _ l p[unfolded s2[symmetric]] g n]
  obtain w' where b0: "slice_to example_base (- 2) = take w' example_base"
      "length (take w' example_base) = w'"
      "new_calls start (snd (predict_one example_platform (ustr ''phishing_risk'') (?m (- 2))
         example_base start)) =
       [(ustr ''phishing_risk'', take w' example_base),
        (ustr ''phishing_risk'', take w' example_base @ replicate (nat (7 - int w')) (Fin 0))]"
    by (auto simp: s2 example_limits simp del: length_take)
  from t[OF b0(1)[unfolded s2] b0(2)] have "w' = 3" .
  with b0(3) fin
  have b: "new_calls start (snd (predict_one example_platform (ustr ''phishing_risk'')
             (?m (- 2)) example_base start)) =
     [(ustr ''phishing_risk'', [Fin 0, Fin 20, Fin 30]),
      (ustr ''phishing_risk'', [Fin 0, Fin 20, Fin 30, Fin 0, Fin 0, Fin 0, Fin 0])]"
    by (simp add: example_base_def numeral_3_eq_3)
  from a b show ?thesis by simp
qed

text \<open>
  The claim as it was stated covers every \<open>N1 > w\<close>. With the message
  \<^verbatim>\<open>expected 100000000000000000000, got 3\<close> the pattern matches and \<open>N1\<close> is above the
  length 3 of the truncated vector, but the product \<^verbatim>\<open>[0.0] * (exp - len(features))\<close>
  raises \<^verbatim>\<open>OverflowError\<close> inside the \<^verbatim>\<open>except ValueError\<close> clause: there is no retry, and
  the request ends with that exception.
\<close>

theorem retry_out_of_range_counterexample:
  "detect_expected example_platform
     (strict_model (Present (PyInt 3)) 7 ''expected 100000000000000000000, got 3''
        (PyStr (ustr ''42''))) = Inr (Some 3) \<and>
   re_search example_platform (ustr ''expected 100000000000000000000, got 3'') =
     Some (ustr ''100000000000000000000'', ustr ''3'') \<and>
   int_of_string example_platform (ustr ''100000000000000000000'') =
     Some 100000000000000000000 \<and>
   predict_one example_platform (ustr ''phishing_risk'')
     (strict_model (Present (PyInt 3)) 7 ''expected 100000000000000000000, got 3''
        (PyStr (ustr ''42''))) example_base start =
     (Inl IndexOverflow,
      \<lparr>world = 1, calls = [(ustr ''phishing_risk'', [Fin 0, Fin 20, Fin 30])]\<rparr>)"
proof -
  let ?m = "strict_model (Present (PyInt 3)) 7 ''expected 100000000000000000000, got 3''
              (PyStr (ustr ''42''))"
  have d: "detect_expected example_platform ?m = Inr (Some 3)"
    by (simp add: detect_expected_def strict_model_def)
  have w: "working_vector example_platform ?m example_base = Inr [Fin 0, Fin 20, Fin 30]"
    by (simp add: working_vector_def d reshape_def slice_to_def example_base_def numeral_3_eq_3)
  have p: "predict_first (ustr ''phishing_risk'') ?m [Fin 0, Fin 20, Fin 30] start =
             (Inl (ValueError (Some (ustr ''expected 100000000000000000000, got 3''))),
              \<lparr>world = 1, calls = [(ustr ''phishing_risk'', [Fin 0, Fin 20, Fin 30])]\<rparr>)"
    by (simp add: predict_first_def strict_model_def start_def)
  have o: "pad_to example_platform 100000000000000000000 [Fin 0, Fin 20, Fin 30] =
             Inl IndexOverflow"
    by (simp add: pad_to_def example_limits)
  have a: "attempt_prediction example_platform (ustr ''phishing_risk'') ?m
             [Fin 0, Fin 20, Fin 30] start =
           (Inl IndexOverflow,
            \<lparr>world = 1, calls = [(ustr ''phishing_risk'', [Fin 0, Fin 20, Fin 30])]\<rparr>)"
    by (rule attempt_pad_fails[OF p re_search_huge int_of_string_huge _ o]) simp
  from d re_search_huge[of example_platform] int_of_string_huge[of example_platform]
       predict_one_attempt_fails[OF w a]
  show ?thesis by simp
qed



text \<open>
  C3 (as amended). When the first call raises a \<^verbatim>\<open>ValueError\<close> whose message contains
  \<^verbatim>\<open>expected\<close>, separators, a number \<open>N1\<close>, separators, \<^verbatim>\<open>got\<close>, separators and a
  number (the two words in lower case, as \<open>re_search\<close> matches them), \<^verbatim>\<open>int\<close> accepts
  the digits of \<open>N1\<close>, \<open>N1\<close> is greater than the length of the working vector and small
  enough for a vector of \<open>N1\<close> features to be built, the handler pads the vector with zeros
  to length \<open>N1\<close> and calls \<^verbatim>\<open>predict\<close> exactly once more. When that call returns a
  prediction that \<^verbatim>\<open>float\<close> accepts, its clamped value is the score of the model, and
  the loop stores it under the model's risk name.
\<close>

theorem shape_mismatch_retry:
  assumes "working_vector P m base = Inr features"
    and "predict_first risk m features s = (Inl (ValueError (Some msg)), s1)"
    and "re_search P msg = Some (g1, g2)" and "int_of_string P g1 = Some n1"
    and "int (length features) < n1"
    and "n1 - int (length features) \<le> maxsize P" and "n1 \<le> max_list P"
  shows "int (length (features @ replicate (nat (n1 - int (length features))) (Fin 0))) = n1 \<and>
         new_calls s (snd (predict_one P risk m base s)) =
           [(risk, features),
            (risk, features @ replicate (nat (n1 - int (length features))) (Fin 0))] \<and>
         (\<forall>pred s2 v.
            predict_first risk m
              (features @ replicate (nat (n1 - int (length features))) (Fin 0)) s1 =
              (Inr pred, s2) \<and> py_float P pred = Some v \<longrightarrow>
            predict_one P risk m base s =
              (Inr (case v of Fin r \<Rightarrow> Fin (max 0 (min 100 r)) | PosInf \<Rightarrow> Fin 100
                    | NegInf \<Rightarrow> Fin 0 | NaN \<Rightarrow> Fin 100), s2) \<and>
            (\<forall>post results results' s'.
               risk \<notin> fst ` set post \<and>
               predict_loop P ((risk, m) # post) base results s = (Inr results', s') \<longrightarrow>
               results' risk =
                 Some (case v of Fin r \<Rightarrow> Fin (max 0 (min 100 r)) | PosInf \<Rightarrow> Fin 100
                       | NegInf \<Rightarrow> Fin 0 | NaN \<Rightarrow> Fin 100)))"
proof -
  let ?padded = "features @ replicate (nat (n1 - int (length features))) (Fin 0)"
  have len: "int (length ?padded) = n1"
    using assms(5) by simp
  note pad = pad_to_fits[OF assms(6,7)]
  note two = predict_one_retry_calls[OF assms(1-5) pad]
  have ok: "predict_one P risk m base s = (Inr (clamp v), s2)"
    if "predict_first risk m ?padded s1 = (Inr pred, s2)" "py_float P pred = Some v"
    for pred s2 v
    using assms(1) attempt_retry_ok[OF assms(2-5) pad that(1)] that(2) by (rule predict_one_ok)
  have loop: "results' risk = Some (clamp v)"
    if "predict_first risk m ?padded s1 = (Inr pred, s2)" "py_float P pred = Some v"
       "risk \<notin> fst ` set post"
       "predict_loop P ((risk, m) # post) base results s = (Inr results', s')"
    for pred s2 v post results results' s'
  proof -
    from that(4) ok[OF that(1,2)]
    have "predict_loop P post base (results(risk \<mapsto> clamp v)) s2 = (Inr results', s')"
      by simp
    from predict_loop_keeps[OF this that(3)] show ?thesis by simp
  qed
  from len two ok loop show ?thesis unfolding clamp_cases by blast
qed

theorem shape_mismatch_retry_witness:
  "predict_one example_platform (ustr ''phishing_risk'')
     (strict_model Absent 7 ''expected 7, got 5'' (PyInt 150)) example_base start =
     (Inr (Fin 100),
      \<lparr>world = 2,
       calls = [(ustr ''phishing_risk'', example_base),
                (ustr ''phishing_risk'', example_base @ [Fin 0, Fin 0])]\<rparr>) \<and>
   new_calls start (snd (predict_one example_platform (ustr ''phishing_risk'')
       (strict_model Absent 7 ''expected 7, got 5'' (PyInt 150)) example_base start)) =
     [(ustr ''phishing_risk'', example_base),
      (ustr ''phishing_risk'', example_base @ [Fin 0, Fin 0])]"
proof -
  let ?m = "strict_model Absent 7 ''expected 7, got 5'' (PyInt 150)"
  let ?s1 = "\<lparr>world = 1, calls = [(ustr ''phishing_risk'', example_base)]\<rparr>"
  let ?s2 = "\<lparr>world = 2, calls = [(ustr ''phishing_risk'', example_base),
                                   (ustr ''phishing_risk'', example_base @ [Fin 0, Fin 0])]\<rparr>"
  note l5 = example_length
  have w: "working_vector example_platform ?m example_base = Inr example_base"
    by (simp add: working_vector_def detect_expected_def strict_model_def reshape_def)
  have p: "predict_first (ustr ''phishing_risk'') ?m example_base start =
             (Inl (ValueError (Some (ustr ''expected 7, got 5''))), ?s1)"
    by (simp add: predict_first_def strict_model_def start_def l5)
  note g = re_search_7_5[of example_platform]
  have n: "int_of_string example_platform (ustr ''7'') = Some 7"
    using int_of_string_digit[of example_platform] by simp
  have l: "int (length example_base) < 7" "7 - int (length example_base) \<le>
      maxsize example_platform" "7 \<le> max_list example_platform"
    by (simp_all add: l5 example_limits)
  have pad: "example_base @ replicate (nat (7 - int (length example_base))) (Fin 0) =
             example_base @ [Fin 0, Fin 0]"
    by (simp add: l5 numeral_2_eq_2)
  have p2: "predict_first (ustr ''phishing_risk'') ?m (example_base @ [Fin 0, Fin 0]) ?s1 =
              (Inr (PyInt 150), ?s2)"
    by (simp add: predict_first_def strict_model_def l5)
  have f: "py_float example_platform (PyInt 150) = Some (Fin 150)"
    using float_of_int_exact[of 150] by simp
  note t = shape_mismatch_retry[OF w p g n l, unfolded pad]
  from t p2 f
  have "predict_one example_platform (ustr ''phishing_risk'') ?m example_base start =
          (Inr (case Fin 150 of Fin r \<Rightarrow> Fin (max 0 (min 100 r)) | PosInf \<Rightarrow> Fin 100
                | NegInf \<Rightarrow> Fin 0 | NaN \<Rightarrow> Fin 100), ?s2)"
    by blast
  moreover from t
  have "new_calls start (snd (predict_one example_platform (ustr ''phishing_risk'') ?m
          example_base start)) =
     [(ustr ''phishing_risk'', example_base),
      (ustr ''phishing_risk'', example_base @ [Fin 0, Fin 0])]"
    by blast
  ultimately show ?thesis by simp
qed

text \<open>
  The claim as it was stated has the match ignore case, and has the retry for every
  \<open>N1\<close> above the length. The search is called without a flag: a message that starts
  with a capital letter does not match, the handler makes no second call and the request
  fails, although the model would have accepted seven features. And with
  \<open>N1 = 10 ^ 20\<close> the padding raises \<^verbatim>\<open>OverflowError\<close> inside the
  \<^verbatim>\<open>except ValueError\<close> clause: again one call only, and the request ends with that
  exception.
\<close>

theorem no_retry_counterexample:
  "re_search example_platform (ustr ''Expected 7, got 5'') = None \<and>
   predict_one example_platform (ustr ''phishing_risk'')
     (strict_model Absent 7 ''Expected 7, got 5'' (PyInt 50)) example_base start =
     (Inl (HTTPException 500 (ustr ''Prediction error: Expected 7, got 5'')),
      \<lparr>world = 1, calls = [(ustr ''phishing_risk'', example_base)]\<rparr>) \<and>
   re_search example_platform (ustr ''expected 100000000000000000000, got 3'') =
     Some (ustr ''100000000000000000000'', ustr ''3'') \<and>
   int_of_string example_platform (ustr ''100000000000000000000'') =
     Some 100000000000000000000 \<and>
   predict_one example_platform (ustr ''phishing_risk'')
     (strict_model Absent 7 ''expected 100000000000000000000, got 3'' (PyInt 50))
     example_base start =
     (Inl IndexOverflow, \<lparr>world = 1, calls = [(ustr ''phishing_risk'', example_base)]\<rparr>)"
proof -
  let ?s1 = "\<lparr>world = 1, calls = [(ustr ''phishing_risk'', example_base)]\<rparr>"
  note l5 = example_length
  have w: "working_vector example_platform (strict_model Absent 7 t (PyInt 50)) example_base =
             Inr example_base" for t
    by (simp add: working_vector_def detect_expected_def strict_model_def reshape_def)
  have p: "predict_first (ustr ''phishing_risk'') (strict_model Absent 7 t (PyInt 50))
             example_base start = (Inl (ValueError (Some (ustr t))), ?s1)" for t
    by (simp add: predict_first_def strict_model_def start_def l5)
  have g: "re_search example_platform (ustr ''Expected 7, got 5'') = None"
    by (simp add: re_search.simps match_at_def ustr_def)
  have o: "pad_to example_platform 100000000000000000000 example_base = Inl IndexOverflow"
    by (simp add: pad_to_def example_limits l5)
  have a: "attempt_prediction example_platform (ustr ''phishing_risk'')
             (strict_model Absent 7 ''expected 100000000000000000000, got 3'' (PyInt 50))
             example_base start = (Inl IndexOverflow, ?s1)"
    by (rule attempt_pad_fails[OF p re_search_huge int_of_string_huge _ o]) (simp add: l5)
  from g predict_one_attempt_fails[OF w attempt_no_match[OF p g]]
       re_search_huge[of example_platform] int_of_string_huge[of example_platform]
       predict_one_attempt_fails[OF w a]
  show ?thesis by (simp add: ustr_def)
qed




text \<open>
  C7. When one model fails (its working vector cannot be built, its first call or the
  retry after padding raises) or its prediction is not numeric, the whole request fails
  with that error, in the state right after that model: the handler returns no scores,
  also not those of the models before, and calls no model after. For every model, in
  every state, the calls the handler makes are: none, when the working vector cannot be
  built; one, with the working vector; or two, and then the first call has raised a
  \<^verbatim>\<open>ValueError\<close> whose message matches the pattern with a number \<open>N1\<close> above the
  length of the working vector, and the second call gets the working vector padded with
  zeros to length \<open>N1\<close>. So a request over \<open>n\<close> models makes at most \<open>2 * n\<close> calls.
\<close>

theorem failure_aborts_request:
  assumes "base_features input = Inr base"
    and "predict_loop P pre base Map.empty s = (Inr results1, s1)"
    and "(working_vector P m base = Inl e \<and> s2 = s1) \<or>
         (\<exists>features. working_vector P m base = Inr features \<and>
            (attempt_prediction P risk m features s1 = (Inl e, s2) \<or>
             (\<exists>pred. attempt_prediction P risk m features s1 = (Inr pred, s2) \<and>
                py_float P pred = None \<and>
                e = HTTPException 500
                      (ustr ''Model returned non-numeric prediction for '' @ risk))))"
  shows "predict_risks P (pre @ (risk, m) # post) input s = (Inl e, s2) \<and>
         s2 = snd (predict_one P risk m base s1) \<and>
         (\<forall>risk' m' t.
            (\<exists>e'. working_vector P m' base = Inl e' \<and>
               new_calls t (snd (predict_one P risk' m' base t)) = []) \<or>
            (\<exists>features. working_vector P m' base = Inr features \<and>
               (new_calls t (snd (predict_one P risk' m' base t)) = [(risk', features)] \<or>
                (\<exists>msg g1 g2 n1 t1.
                   predict_first risk' m' features t = (Inl (ValueError (Some msg)), t1) \<and>
                   re_search P msg = Some (g1, g2) \<and> int_of_string P g1 = Some n1 \<and>
                   int (length features) < n1 \<and>
                   new_calls t (snd (predict_one P risk' m' base t)) =
                     [(risk', features),
                      (risk', features @
                         replicate (nat (n1 - int (length features))) (Fin 0))])))) \<and>
         length (new_calls s (snd (predict_risks P models input s))) \<le> 2 * length models"
proof -
  have one: "predict_one P risk m base s1 = (Inl e, s2)"
    using assms(3)
    by (auto simp: predict_one_no_vector predict_one_attempt_fails predict_one_non_numeric)
  have "predict_loop P (pre @ (risk, m) # post) base Map.empty s = (Inl e, s2)"
    using assms(2) one by (simp add: predict_loop_append)
  then have 1: "predict_risks P (pre @ (risk, m) # post) input s = (Inl e, s2)"
    using assms(1) by (simp add: predict_risks_def)
  have 2: "s2 = snd (predict_one P risk m base s1)"
    using one by simp
  have "snd (predict_risks P models input s) = snd (predict_loop P models base Map.empty s)"
    using assms(1) by (simp add: predict_risks_def split: prod.splits sum.splits)
  with predict_loop_calls_extend[of P models base Map.empty s]
  have 3: "length (new_calls s (snd (predict_risks P models input s))) \<le> 2 * length models"
    by (auto simp: new_calls_def)
  from 1 2 3 predict_one_calls[of P _ base] show ?thesis by blast
qed

theorem failure_aborts_request_witness:
  "predict_risks example_platform
     [(ustr ''phishing_risk'', constant_model Absent Absent (PyInt 50)),
      (ustr ''weak_password_risk'', constant_model Absent Absent PyNone),
      (ustr ''oversharing_risk'', constant_model Absent Absent (PyInt 50))]
     example_input start =
     (Inl (HTTPException 500
        (ustr ''Model returned non-numeric prediction for weak_password_risk'')),
      \<lparr>world = 2,
       calls = [(ustr ''phishing_risk'', example_base),
                (ustr ''weak_password_risk'', example_base)]\<rparr>)"
proof -
  let ?s1 = "\<lparr>world = 1, calls = [(ustr ''phishing_risk'', example_base)]\<rparr>"
  let ?s2 = "\<lparr>world = 2, calls = [(ustr ''phishing_risk'', example_base),
                                   (ustr ''weak_password_risk'', example_base)]\<rparr>"
  note b = example_base_features
  have f: "float_of_int 50 = Some (Fin 50)"
    using float_of_int_exact[of 50] by simp
  have pre: "predict_loop example_platform
               [(ustr ''phishing_risk'', constant_model Absent Absent (PyInt 50))]
               example_base Map.empty start =
             (Inr [ustr ''phishing_risk'' \<mapsto> Fin 50], ?s1)"
    by (simp add: predict_one_def constant_model_vector constant_model_attempt start_def f
                  clamp_Fin)
  have a: "attempt_prediction example_platform (ustr ''weak_password_risk'')
             (constant_model Absent Absent PyNone) example_base ?s1 = (Inr PyNone, ?s2)"
    by (simp add: constant_model_attempt)
  have n: "py_float example_platform PyNone = None" by simp
  have h: "(working_vector example_platform (constant_model Absent Absent PyNone) example_base =
              Inl (HTTPException 500
                (ustr ''Model returned non-numeric prediction for '' @
                 ustr ''weak_password_risk'')) \<and> ?s2 = ?s1) \<or>
         (\<exists>features. working_vector example_platform (constant_model Absent Absent PyNone)
              example_base = Inr features \<and>
            (attempt_prediction example_platform (ustr ''weak_password_risk'')
               (constant_model Absent Absent PyNone) features ?s1 =
               (Inl (HTTPException 500
                  (ustr ''Model returned non-numeric prediction for '' @
                   ustr ''weak_password_risk'')), ?s2) \<or>
             (\<exists>pred. attempt_prediction example_platform (ustr ''weak_password_risk'')
                  (constant_model Absent Absent PyNone) features ?s1 = (Inr pred, ?s2) \<and>
                py_float example_platform pred = None \<and>
                HTTPException 500
                  (ustr ''Model returned non-numeric prediction for '' @
                   ustr ''weak_password_risk'') =
                HTTPException 500
                  (ustr ''Model returned non-numeric prediction for '' @
                   ustr ''weak_password_risk''))))"
    using constant_model_vector[of example_platform PyNone example_base] a n by blast
  from failure_aborts_request[
         where post = "[(ustr ''oversharing_risk'', constant_model Absent Absent (PyInt 50))]",
         OF b pre h, THEN conjunct1]
  show ?thesis by (simp add: ustr_def)
qed

text \<open>
  C8. With models whose prediction functions are deterministic, the handler returns the
  same output (the same scores, or the same error) for the same input in whatever state
  it starts; so a second request with the same input, started in the state the first one
  left, returns what the first one returned.
\<close>

theorem same_input_same_output:
  assumes "\<forall>p \<in> set models. deterministic (snd p)"
  shows "fst (predict_risks P models input s') = fst (predict_risks P models input s) \<and>
         fst (predict_risks P models input (snd (predict_risks P models input s))) =
           fst (predict_risks P models input s)"
proof -
  have "fst (predict_risks P models input t) = fst (predict_risks P models input s)" for t
  proof (cases "base_features input")
    case (Inl e)
    then show ?thesis by (simp add: predict_risks_def)
  next
    case (Inr base)
    from predict_loop_deterministic[OF assms, of P base Map.empty t s]
    show ?thesis
      using Inr
      by (cases "predict_loop P models base Map.empty t";
          cases "predict_loop P models base Map.empty s")
         (auto simp: predict_risks_def split: sum.splits)
  qed
  then show ?thesis by simp
qed

theorem same_input_same_output_witness:
  "fst (predict_risks example_platform example_models example_input
         (snd (predict_risks example_platform example_models example_input start))) =
   fst (predict_risks example_platform example_models example_input start) \<and>
   fst (predict_risks example_platform example_models example_input start) =
     Inr \<lparr>phishing_risk = Fin 42, weak_password_risk = Fin 100, oversharing_risk = Fin 100,
          emotional_manipulation_risk = Fin 100, update_ignorance_risk = Fin 100\<rparr>"
proof -
  have dc: "deterministic (constant_model a b v)" for a b v
    by (simp add: deterministic_def constant_model_def)
  have ds: "deterministic (strict_model a n t v)" for a n t v
    by (simp add: deterministic_def strict_model_def)
  have d: "\<forall>p \<in> set example_models. deterministic (snd p)"
    by (simp add: example_models_def dc ds)
  from same_input_same_output[OF d, of example_platform example_input start start] example_run
  show ?thesis by simp
qed

end
